theory Spec2Isabelle
  imports Main "HOL-Library.Word" "HOL-Library.Signed_Division"
begin

section \<open>Source locations and failures\<close>

text \<open>
  \<^verbatim>\<open>struct SourceLocation\<close> of \<^verbatim>\<open>src/main.cpp\<close>: a line and a column.
\<close>

datatype SourceLocation = SourceLocation (line: int) (column: int)

text \<open>
  Every way in which the interpreter stops without a value.
  \<^item> \<open>Panic type msg sl\<close> is \<^verbatim>\<open>panic(type, msg, sl)\<close>, which throws a
    \<^verbatim>\<open>std::runtime_error\<close>; \<^verbatim>\<open>panic\<close> called without a location uses
    \<^verbatim>\<open>SourceLocation(0, 0)\<close>.
  \<^item> \<open>Uncaught what\<close> is an exception of the standard library that is not a
    \<^verbatim>\<open>std::runtime_error\<close> (\<^verbatim>\<open>std::stoi\<close> throws them).
  \<^item> \<open>Undefined what\<close> is undefined behaviour of the C++ program: a read outside a
    vector, a read of a member that was never assigned.
  \<^item> \<open>External what\<close> is a failure reported by the host (see \<open>Host\<close> below).
\<close>

datatype error =
    Panic string string SourceLocation
  | Uncaught string
  | Undefined string
  | External string

definition noLocation :: SourceLocation where
  "noLocation = SourceLocation 0 0"

section \<open>Quoting and unquoting strings\<close>

text \<open>
  The characters the two functions test for: backslash, double quote, tab and newline.
\<close>

definition backslash :: char where "backslash = CHR 0x5C"
definition dquote :: char where "dquote = CHR 0x22"
definition tab :: char where "tab = CHR 0x09"
definition newline :: char where "newline = CHR 0x0A"

text \<open>The body of the \<^verbatim>\<open>for (char c : s)\<close> loop of \<^verbatim>\<open>quote\<close>: what is appended for \<open>c\<close>.\<close>

definition quote_char :: "char \<Rightarrow> string" where
  "quote_char c =
     (if c = backslash then [backslash, backslash]
      else if c = dquote then [backslash, dquote]
      else [c])"

fun quote_loop :: "string \<Rightarrow> string \<Rightarrow> string" where
  "quote_loop r [] = r"
| "quote_loop r (c # s) = quote_loop (r @ quote_char c) s"

definition quote :: "string \<Rightarrow> string" where
  "quote s = quote_loop [dquote] s @ [dquote]"

text \<open>
  The \<^verbatim>\<open>while (s.size())\<close> loop of \<^verbatim>\<open>unquote\<close>. The source reverses the string and
  then takes characters from its back, so it reads them first to last; the list
  argument here holds the characters still to be read, in reading order, and \<open>r\<close> is
  the result so far.
\<close>

fun unquote_loop :: "string \<Rightarrow> string \<Rightarrow> error + string" where
  "unquote_loop r [] = Inr r"
| "unquote_loop r (c # s) =
     (if c = backslash then
        (case s of
           [] \<Rightarrow> Inl (Panic ''unquote'' ''incomplete escape sequence'' noLocation)
         | c1 # s' \<Rightarrow>
             if c1 = backslash then unquote_loop (r @ [backslash]) s'
             else if c1 = dquote then unquote_loop (r @ [dquote]) s'
             else if c1 = CHR ''t'' then unquote_loop (r @ [tab]) s'
             else if c1 = CHR ''n'' then unquote_loop (r @ [newline]) s'
             else Inl (Panic ''unquote'' ''invalid escape sequence'' noLocation))
      else unquote_loop (r @ [c]) s)"

text \<open>
  \<^verbatim>\<open>unquote\<close>. \<^verbatim>\<open>int n = s.size()\<close> reads the size into a 32-bit \<^verbatim>\<open>int\<close>: \<open>n\<close> is the
  signed value of the size taken modulo \<open>2 ^ 32\<close>, so for a string of \<open>2 ^ 31\<close> bytes
  or more it is not the size. \<^verbatim>\<open>s[0]\<close> and \<^verbatim>\<open>s[n - 1]\<close> are read only when
  \<open>n \<ge> 2\<close>, and then both are inside the string; \<^verbatim>\<open>substr(1, n - 2)\<close> keeps at most
  \<open>n - 2\<close> characters after the first.
\<close>

definition unquote :: "string \<Rightarrow> error + string" where
  "unquote s =
     (let n = sint (of_nat (length s) :: 32 word) in
      if \<not> (n \<ge> 2 \<and> s ! 0 = dquote \<and> s ! nat (n - 1) = dquote)
      then Inl (Panic ''unquote'' ''invalid quoted string'' noLocation)
      else unquote_loop [] (take (nat (n - 2)) (drop 1 s)))"

section \<open>The syntax tree\<close>

text \<open>
  \<^verbatim>\<open>using Location = int\<close>: an index into the heap. A literal node holds \<open>-1\<close> until
  the literals are pre-allocated.
\<close>

type_synonym Location = int

text \<open>The members of the base class \<^verbatim>\<open>ExprNode\<close>.\<close>

record ExprBase =
  sl :: SourceLocation
  freeVars :: "string set"
  tail :: bool

datatype VariableNode = VariableNode (vbase: ExprBase) (name: string)

datatype ExprNode =
    IntegerNode ExprBase string Location
  | StringNode ExprBase string Location
  | Variable VariableNode
  | LambdaNode ExprBase "VariableNode list" ExprNode
  | LetrecNode ExprBase "(VariableNode \<times> ExprNode) list" ExprNode
  | IfNode ExprBase ExprNode ExprNode ExprNode
  | SequenceNode ExprBase "ExprNode list"
  | IntrinsicCallNode ExprBase string "ExprNode list"
  | ExprCallNode ExprBase ExprNode "ExprNode list"
  | AtNode ExprBase VariableNode ExprNode

fun base :: "ExprNode \<Rightarrow> ExprBase" where
  "base (IntegerNode b _ _) = b"
| "base (StringNode b _ _) = b"
| "base (Variable v) = vbase v"
| "base (LambdaNode b _ _) = b"
| "base (LetrecNode b _ _) = b"
| "base (IfNode b _ _ _) = b"
| "base (SequenceNode b _) = b"
| "base (IntrinsicCallNode b _ _) = b"
| "base (ExprCallNode b _ _) = b"
| "base (AtNode b _ _) = b"

section \<open>Runtime values\<close>

text \<open>
  \<^verbatim>\<open>struct Integer\<close> holds a C++ \<^verbatim>\<open>int\<close>: a 32-bit word read in two's complement.
  The source does nothing about overflow. For \<^verbatim>\<open>+\<close>, \<^verbatim>\<open>-\<close> and \<^verbatim>\<open>*\<close> the model takes
  the result modulo \<open>2 ^ 32\<close>, which is what the machine instructions compute. The
  one overflow of \<^verbatim>\<open>/\<close> and \<^verbatim>\<open>%\<close> is different: the division instruction traps
  (see \<open>int_div\<close> below).
\<close>

type_synonym cint = "32 word"

text \<open>
  \<^verbatim>\<open>using Env = std::vector<std::pair<std::string, Location>>\<close>; newer variables have
  larger indices.
\<close>

type_synonym Env = "(string \<times> Location) list"

text \<open>
  \<^verbatim>\<open>lookup\<close> scans from \<^verbatim>\<open>rbegin\<close> to \<^verbatim>\<open>rend\<close>: \<open>lookup_rev\<close> is the scan over the
  reversed vector.
\<close>

fun lookup_rev :: "string \<Rightarrow> Env \<Rightarrow> Location option" where
  "lookup_rev n [] = None"
| "lookup_rev n (p # ps) = (if fst p = n then Some (snd p) else lookup_rev n ps)"

definition lookup :: "string \<Rightarrow> Env \<Rightarrow> Location option" where
  "lookup n env = lookup_rev n (rev env)"

text \<open>
  A closure holds its own copy of an environment and a pointer to the
  \<^verbatim>\<open>LambdaNode\<close> it was made from. The tree does not change once evaluation has
  started, so the model keeps the members of the node pointed to: its base, its
  parameter list and its body.
\<close>

type_synonym LambdaRef = "ExprBase \<times> VariableNode list \<times> ExprNode"

datatype Value =
    Void
  | Integer cint
  | String string
  | Closure Env LambdaRef

type_synonym Heap = "Value list"

text \<open>\<^verbatim>\<open>heap[loc]\<close>; outside the vector the read is undefined.\<close>

definition heap_at :: "Heap \<Rightarrow> Location \<Rightarrow> Value option" where
  "heap_at h l = (if 0 \<le> l \<and> l < int (length h) then Some (h ! nat l) else None)"

section \<open>Static analysis\<close>

text \<open>
  The duplicate check of the constructor of \<^verbatim>\<open>State\<close>. \<open>has_duplicate varNames ns\<close> is
  the loop over the names with the set \<^verbatim>\<open>varNames\<close>: it is true when some name is met
  a second time.
\<close>

fun has_duplicate :: "string set \<Rightarrow> string list \<Rightarrow> bool" where
  "has_duplicate varNames [] = False"
| "has_duplicate varNames (n # ns) =
     (if n \<in> varNames then True else has_duplicate (insert n varNames) ns)"

text \<open>
  \<^verbatim>\<open>expr->traverse(TraversalMode::topDown, checkDuplicate)\<close>: the callback runs on a
  node before its children, the children in the order of \<^verbatim>\<open>_traverseSubtree\<close>; the
  first violation met is the one thrown. \<open>None\<close> is the normal return.
\<close>

fun first_error :: "error option list \<Rightarrow> error option" where
  "first_error [] = None"
| "first_error (None # rs) = first_error rs"
| "first_error (Some e # rs) = Some e"

fun checkDuplicate :: "ExprNode \<Rightarrow> error option" where
  "checkDuplicate (IntegerNode b v l) = None"
| "checkDuplicate (StringNode b v l) = None"
| "checkDuplicate (Variable v) = None"
| "checkDuplicate (LambdaNode b varList e) =
     (if has_duplicate {} (map name varList)
      then Some (Panic ''sema'' ''duplicate parameter names'' (sl b))
      else checkDuplicate e)"
| "checkDuplicate (LetrecNode b varExprList e) =
     (if has_duplicate {} (map (\<lambda>ve. name (fst ve)) varExprList)
      then Some (Panic ''sema'' ''duplicate binding names'' (sl b))
      else first_error (map (\<lambda>ve. checkDuplicate (snd ve)) varExprList @ [checkDuplicate e]))"
| "checkDuplicate (IfNode b c b1 b2) =
     first_error [checkDuplicate c, checkDuplicate b1, checkDuplicate b2]"
| "checkDuplicate (SequenceNode b exprList) = first_error (map checkDuplicate exprList)"
| "checkDuplicate (IntrinsicCallNode b i argList) = first_error (map checkDuplicate argList)"
| "checkDuplicate (ExprCallNode b e argList) =
     first_error (checkDuplicate e # map checkDuplicate argList)"
| "checkDuplicate (AtNode b v e) = checkDuplicate e"

text \<open>
  \<^verbatim>\<open>computeFreeVars\<close>: every node adds to its own set the sets of the children it
  visits, then a lambda erases its parameters and a letrec its bound names. The
  parameter nodes of a lambda and the variable of an \<^verbatim>\<open>@\<close> are not visited.
\<close>

definition add_freeVars :: "ExprBase \<Rightarrow> ExprNode list \<Rightarrow> ExprBase" where
  "add_freeVars b es = b\<lparr>freeVars := freeVars b \<union> (\<Union>e \<in> set es. freeVars (base e))\<rparr>"

definition erase_freeVars :: "ExprBase \<Rightarrow> string list \<Rightarrow> ExprBase" where
  "erase_freeVars b ns = b\<lparr>freeVars := freeVars b - set ns\<rparr>"

fun computeFreeVars :: "ExprNode \<Rightarrow> ExprNode" where
  "computeFreeVars (IntegerNode b v l) = IntegerNode b v l"
| "computeFreeVars (StringNode b v l) = StringNode b v l"
| "computeFreeVars (Variable v) =
     Variable (VariableNode ((vbase v)\<lparr>freeVars := insert (name v) (freeVars (vbase v))\<rparr>) (name v))"
| "computeFreeVars (LambdaNode b varList e) =
     (let e' = computeFreeVars e
      in LambdaNode (erase_freeVars (add_freeVars b [e']) (map name varList)) varList e')"
| "computeFreeVars (LetrecNode b varExprList e) =
     (let e' = computeFreeVars e;
          ves' = map (\<lambda>ve. (fst ve, computeFreeVars (snd ve))) varExprList
      in LetrecNode
           (erase_freeVars (add_freeVars b (e' # map snd ves')) (map (\<lambda>ve. name (fst ve)) ves'))
           ves' e')"
| "computeFreeVars (IfNode b c b1 b2) =
     (let c' = computeFreeVars c; b1' = computeFreeVars b1; b2' = computeFreeVars b2
      in IfNode (add_freeVars b [c', b1', b2']) c' b1' b2')"
| "computeFreeVars (SequenceNode b exprList) =
     (let es' = map computeFreeVars exprList in SequenceNode (add_freeVars b es') es')"
| "computeFreeVars (IntrinsicCallNode b i argList) =
     (let as' = map computeFreeVars argList in IntrinsicCallNode (add_freeVars b as') i as')"
| "computeFreeVars (ExprCallNode b e argList) =
     (let e' = computeFreeVars e; as' = map computeFreeVars argList
      in ExprCallNode (add_freeVars b (e' # as')) e' as')"
| "computeFreeVars (AtNode b v e) =
     (let e' = computeFreeVars e in AtNode (add_freeVars b [e']) v e')"

text \<open>
  \<^verbatim>\<open>computeTail(parentTail)\<close>. A sequence passes \<open>False\<close> to all its expressions but
  the last, which gets the tail bit of the sequence: \<open>computeTail_seq\<close> (the parser
  never delivers an empty sequence).
\<close>

definition setTailVar :: "bool \<Rightarrow> VariableNode \<Rightarrow> VariableNode" where
  "setTailVar t v = VariableNode ((vbase v)\<lparr>tail := t\<rparr>) (name v)"

fun computeTail :: "bool \<Rightarrow> ExprNode \<Rightarrow> ExprNode"
  and computeTail_seq :: "bool \<Rightarrow> ExprNode list \<Rightarrow> ExprNode list" where
  "computeTail parentTail (IntegerNode b v l) = IntegerNode (b\<lparr>tail := parentTail\<rparr>) v l"
| "computeTail parentTail (StringNode b v l) = StringNode (b\<lparr>tail := parentTail\<rparr>) v l"
| "computeTail parentTail (Variable v) = Variable (setTailVar parentTail v)"
| "computeTail parentTail (LambdaNode b varList e) =
     LambdaNode (b\<lparr>tail := parentTail\<rparr>) (map (setTailVar False) varList) (computeTail True e)"
| "computeTail parentTail (LetrecNode b varExprList e) =
     LetrecNode (b\<lparr>tail := parentTail\<rparr>)
       (map (\<lambda>ve. (setTailVar False (fst ve), computeTail False (snd ve))) varExprList)
       (computeTail parentTail e)"
| "computeTail parentTail (IfNode b c b1 b2) =
     IfNode (b\<lparr>tail := parentTail\<rparr>)
       (computeTail False c) (computeTail parentTail b1) (computeTail parentTail b2)"
| "computeTail parentTail (SequenceNode b exprList) =
     SequenceNode (b\<lparr>tail := parentTail\<rparr>) (computeTail_seq parentTail exprList)"
| "computeTail parentTail (IntrinsicCallNode b i argList) =
     IntrinsicCallNode (b\<lparr>tail := parentTail\<rparr>) i (map (computeTail False) argList)"
| "computeTail parentTail (ExprCallNode b e argList) =
     ExprCallNode (b\<lparr>tail := parentTail\<rparr>) (computeTail False e) (map (computeTail False) argList)"
| "computeTail parentTail (AtNode b v e) =
     AtNode (b\<lparr>tail := parentTail\<rparr>) (setTailVar False v) (computeTail False e)"
| "computeTail_seq t [] = []"
| "computeTail_seq t [e] = [computeTail t e]"
| "computeTail_seq t (e # e' # es) = computeTail False e # computeTail_seq t (e' # es)"

section \<open>Intrinsic calls\<close>

subsection \<open>Numbers as text\<close>

text \<open>
  \<^verbatim>\<open>std::stoi\<close>: white space is skipped, an optional sign and the longest run of
  decimal digits are read. No digit at all throws \<^verbatim>\<open>std::invalid_argument\<close>, a value
  that does not fit an \<^verbatim>\<open>int\<close> throws \<^verbatim>\<open>std::out_of_range\<close>.
\<close>

definition isspace :: "char \<Rightarrow> bool" where
  "isspace c = (of_char c \<in> {32, 9, 10, 11, 12, 13 :: nat})"

definition isdigit :: "char \<Rightarrow> bool" where
  "isdigit c = (48 \<le> (of_char c :: nat) \<and> (of_char c :: nat) \<le> 57)"

definition digits_value :: "string \<Rightarrow> int" where
  "digits_value ds = foldl (\<lambda>a c. a * 10 + (int (of_char c) - 48)) 0 ds"

definition stoi :: "string \<Rightarrow> error + cint" where
  "stoi s =
     (let t = dropWhile isspace s;
          neg = (t \<noteq> [] \<and> hd t = CHR ''-'');
          u = (if t \<noteq> [] \<and> (hd t = CHR ''-'' \<or> hd t = CHR ''+'') then tl t else t);
          ds = takeWhile isdigit u;
          v = (if neg then - digits_value ds else digits_value ds)
      in if ds = [] then Inl (Uncaught ''std::invalid_argument'')
         else if v < - (2 ^ 31) \<or> 2 ^ 31 - 1 < v then Inl (Uncaught ''std::out_of_range'')
         else Inr (word_of_int v))"

text \<open>\<^verbatim>\<open>std::to_string\<close> of an \<^verbatim>\<open>int\<close>: the decimal digits, after a minus sign when negative.\<close>

fun nat_digits :: "nat \<Rightarrow> nat \<Rightarrow> string" where
  "nat_digits 0 n = []"
| "nat_digits (Suc k) n =
     (if n < 10 then [char_of (48 + n)]
      else nat_digits k (n div 10) @ [char_of (48 + n mod 10)])"

definition to_string :: "cint \<Rightarrow> string" where
  "to_string v =
     (let i = sint v
      in if i < 0 then CHR ''-'' # nat_digits 10 (nat (- i)) else nat_digits 10 (nat i))"

subsection \<open>Comparing strings\<close>

text \<open>
  \<^verbatim>\<open>operator<\<close> of \<^verbatim>\<open>std::string\<close>: the first differing byte decides, read as an
  unsigned value; a proper prefix is smaller.
\<close>

fun string_less :: "string \<Rightarrow> string \<Rightarrow> bool" where
  "string_less [] [] = False"
| "string_less [] (y # ys) = True"
| "string_less (x # xs) [] = False"
| "string_less (x # xs) (y # ys) =
     (if (of_char x :: nat) < of_char y then True
      else if (of_char y :: nat) < of_char x then False
      else string_less xs ys)"

subsection \<open>The host\<close>

text \<open>
  Five intrinsics reach outside the state: \<^verbatim>\<open>.getchar\<close>, \<^verbatim>\<open>.getint\<close>, \<^verbatim>\<open>.putstr\<close>
  and \<^verbatim>\<open>.flush\<close> use the streams of the process, and \<^verbatim>\<open>.eval\<close> hands a source text
  to the lexer and the parser and runs a second state to its end. What they do is a
  parameter of the model: \<open>'w\<close> is whatever the process holds beside the state, and
  a host gives, for each of the five, its result and the new \<open>'w\<close>.
  \<^item> \<open>host_eval src w\<close>: the result of \<^verbatim>\<open>State state(src); state.execute();
    state.getResult()\<close>, or the failure it ends with.
  \<^item> \<open>host_getchar w\<close>: \<open>None\<close> when \<^verbatim>\<open>std::cin.eof()\<close> holds after \<^verbatim>\<open>get()\<close>,
    else the character.
  \<^item> \<open>host_getint w\<close>: \<open>None\<close> when \<^verbatim>\<open>std::cin >> v\<close> fails, else \<open>v\<close>.
\<close>

record 'w Host =
  host_eval :: "string \<Rightarrow> 'w \<Rightarrow> error + (Value \<times> 'w)"
  host_getchar :: "'w \<Rightarrow> char option \<times> 'w"
  host_getint :: "'w \<Rightarrow> cint option \<times> 'w"
  host_putstr :: "string \<Rightarrow> 'w \<Rightarrow> 'w"
  host_flush :: "'w \<Rightarrow> 'w"

subsection \<open>Type checks\<close>

text \<open>The template arguments of \<^verbatim>\<open>_typecheck\<close>: an alternative of \<^verbatim>\<open>Value\<close>, or \<^verbatim>\<open>Value\<close> itself.\<close>

datatype Alt = AnyValue | IsVoid | IsInteger | IsString | IsClosure

fun holds_alternative :: "Alt \<Rightarrow> Value \<Rightarrow> bool" where
  "holds_alternative AnyValue v = True"
| "holds_alternative IsVoid v = (case v of Void \<Rightarrow> True | _ \<Rightarrow> False)"
| "holds_alternative IsInteger v = (case v of Integer _ \<Rightarrow> True | _ \<Rightarrow> False)"
| "holds_alternative IsString v = (case v of String _ \<Rightarrow> True | _ \<Rightarrow> False)"
| "holds_alternative IsClosure v = (case v of Closure _ _ \<Rightarrow> True | _ \<Rightarrow> False)"

text \<open>
  The fold over the template arguments: it stops at the first argument of the wrong
  alternative, and reads the heap only for an argument that names an alternative.
\<close>

fun typecheck_fold :: "Heap \<Rightarrow> Alt list \<Rightarrow> Location list \<Rightarrow> error + bool" where
  "typecheck_fold h (a # as) (l # ls) =
     (if a = AnyValue then typecheck_fold h as ls
      else (case heap_at h l of
              None \<Rightarrow> Inl (Undefined ''heap read out of range'')
            | Some v \<Rightarrow> if holds_alternative a v then typecheck_fold h as ls else Inr False))"
| "typecheck_fold h as ls = Inr True"

definition typeError :: "SourceLocation \<Rightarrow> error" where
  "typeError s = Panic ''runtime'' ''type error on intrinsic call'' s"

text \<open>\<^verbatim>\<open>_typecheck<Alt...>(sl, args)\<close>; \<open>None\<close> is the normal return.\<close>

definition typecheck :: "Heap \<Rightarrow> SourceLocation \<Rightarrow> Alt list \<Rightarrow> Location list \<Rightarrow> error option" where
  "typecheck h s alts args =
     (if length args \<noteq> length alts then Some (typeError s)
      else (case typecheck_fold h alts args of
              Inl e \<Rightarrow> Some e
            | Inr ok \<Rightarrow> if ok then None else Some (typeError s)))"

text \<open>
  The checked arguments, as \<^verbatim>\<open>std::get\<close> reads them after the type check:
  two integers, one integer, two strings, one string, any one value, none.
\<close>

definition getInteger :: "Heap \<Rightarrow> Location \<Rightarrow> error + cint" where
  "getInteger h l =
     (case heap_at h l of Some (Integer v) \<Rightarrow> Inr v | _ \<Rightarrow> Inl (Undefined ''std::get<Integer>''))"

definition getString :: "Heap \<Rightarrow> Location \<Rightarrow> error + string" where
  "getString h l =
     (case heap_at h l of Some (String v) \<Rightarrow> Inr v | _ \<Rightarrow> Inl (Undefined ''std::get<String>''))"

definition args_II :: "Heap \<Rightarrow> SourceLocation \<Rightarrow> Location list \<Rightarrow> error + (cint \<times> cint)" where
  "args_II h s args =
     (case typecheck h s [IsInteger, IsInteger] args of
        Some e \<Rightarrow> Inl e
      | None \<Rightarrow>
          (case getInteger h (args ! 0) of
             Inl e \<Rightarrow> Inl e
           | Inr a \<Rightarrow> (case getInteger h (args ! 1) of Inl e \<Rightarrow> Inl e | Inr b \<Rightarrow> Inr (a, b))))"

definition args_I :: "Heap \<Rightarrow> SourceLocation \<Rightarrow> Location list \<Rightarrow> error + cint" where
  "args_I h s args =
     (case typecheck h s [IsInteger] args of
        Some e \<Rightarrow> Inl e
      | None \<Rightarrow> getInteger h (args ! 0))"

definition args_SS :: "Heap \<Rightarrow> SourceLocation \<Rightarrow> Location list \<Rightarrow> error + (string \<times> string)" where
  "args_SS h s args =
     (case typecheck h s [IsString, IsString] args of
        Some e \<Rightarrow> Inl e
      | None \<Rightarrow>
          (case getString h (args ! 0) of
             Inl e \<Rightarrow> Inl e
           | Inr a \<Rightarrow> (case getString h (args ! 1) of Inl e \<Rightarrow> Inl e | Inr b \<Rightarrow> Inr (a, b))))"

definition args_S :: "Heap \<Rightarrow> SourceLocation \<Rightarrow> Location list \<Rightarrow> error + string" where
  "args_S h s args =
     (case typecheck h s [IsString] args of
        Some e \<Rightarrow> Inl e
      | None \<Rightarrow> getString h (args ! 0))"

definition args_SII :: "Heap \<Rightarrow> SourceLocation \<Rightarrow> Location list \<Rightarrow> error + (string \<times> cint \<times> cint)" where
  "args_SII h s args =
     (case typecheck h s [IsString, IsInteger, IsInteger] args of
        Some e \<Rightarrow> Inl e
      | None \<Rightarrow>
          (case getString h (args ! 0) of
             Inl e \<Rightarrow> Inl e
           | Inr a \<Rightarrow>
               (case getInteger h (args ! 1) of
                  Inl e \<Rightarrow> Inl e
                | Inr l \<Rightarrow> (case getInteger h (args ! 2) of Inl e \<Rightarrow> Inl e | Inr r \<Rightarrow> Inr (a, l, r)))))"

definition args_V :: "Heap \<Rightarrow> SourceLocation \<Rightarrow> Location list \<Rightarrow> error + Value" where
  "args_V h s args =
     (case typecheck h s [AnyValue] args of
        Some e \<Rightarrow> Inl e
      | None \<Rightarrow>
          (case heap_at h (args ! 0) of
             None \<Rightarrow> Inl (Undefined ''heap read out of range'')
           | Some v \<Rightarrow> Inr v))"

definition args_none :: "Heap \<Rightarrow> SourceLocation \<Rightarrow> Location list \<Rightarrow> error + unit" where
  "args_none h s args = (case typecheck h s [] args of Some e \<Rightarrow> Inl e | None \<Rightarrow> Inr ())"

subsection \<open>The dispatch\<close>

text \<open>
  \<^verbatim>\<open>/\<close> and \<^verbatim>\<open>%\<close> of C++ on \<^verbatim>\<open>int\<close>, for a divisor that is not zero: the quotient is
  rounded towards zero and the remainder takes the sign of the dividend. The
  quotient of the least \<^verbatim>\<open>int\<close> by \<open>-1\<close> is not an \<^verbatim>\<open>int\<close>; for these operands
  both \<^verbatim>\<open>/\<close> and \<^verbatim>\<open>%\<close> are undefined (on x86 the division instruction traps and the
  process is killed).
\<close>

definition division_overflows :: "cint \<Rightarrow> cint \<Rightarrow> bool" where
  "division_overflows a d = (sint a = - (2 ^ 31) \<and> sint d = - 1)"

definition int_div :: "cint \<Rightarrow> cint \<Rightarrow> error + cint" where
  "int_div a d =
     (if division_overflows a d then Inl (Undefined ''int division overflow'')
      else Inr (word_of_int (sint a sdiv sint d)))"

definition int_mod :: "cint \<Rightarrow> cint \<Rightarrow> error + cint" where
  "int_mod a d =
     (if division_overflows a d then Inl (Undefined ''int division overflow'')
      else Inr (word_of_int (sint a smod sint d)))"

text \<open>\<^verbatim>\<open>c ? 1 : 0\<close>.\<close>

definition of_cond :: "bool \<Rightarrow> cint" where
  "of_cond c = (if c then 1 else 0)"

text \<open>
  \<^verbatim>\<open>substr(l, r - l)\<close> once the range check has passed.
\<close>

definition substr :: "string \<Rightarrow> cint \<Rightarrow> cint \<Rightarrow> string" where
  "substr str l r = take (nat (sint (r - l))) (drop (nat (sint l)) str)"

text \<open>The value a branch returns once its arguments are checked and read.\<close>

definition returning :: "'w \<Rightarrow> error + 'a \<Rightarrow> ('a \<Rightarrow> Value) \<Rightarrow> error + (Value \<times> 'w)" where
  "returning w r f = (case r of Inl e \<Rightarrow> Inl e | Inr x \<Rightarrow> Inr (f x, w))"

text \<open>
  \<^verbatim>\<open>State::_callIntrinsic(sl, name, args)\<close>, branch by branch in the order of the
  source (its \<^verbatim>\<open>name\<close> is \<open>intrinsic\<close> here). The heap is only read; the result is the value and what the host made of
  \<open>'w\<close>.
\<close>

definition callIntrinsic ::
  "'w Host \<Rightarrow> Heap \<Rightarrow> 'w \<Rightarrow> SourceLocation \<Rightarrow> string \<Rightarrow> Location list \<Rightarrow> error + (Value \<times> 'w)" where
  "callIntrinsic host h w s intrinsic args =
     (if intrinsic = ''.void'' then
        returning w (args_none h s args) (\<lambda>u. Void)
      else if intrinsic = ''.+'' then
        returning w (args_II h s args) (\<lambda>(a, b). Integer (a + b))
      else if intrinsic = ''.-'' then
        returning w (args_II h s args) (\<lambda>(a, b). Integer (a - b))
      else if intrinsic = ''.*'' then
        returning w (args_II h s args) (\<lambda>(a, b). Integer (a * b))
      else if intrinsic = ''./'' then
        (case args_II h s args of
           Inl e \<Rightarrow> Inl e
         | Inr (a, d) \<Rightarrow>
             if d = 0 then Inl (Panic ''runtime'' ''division by zero'' s)
             else returning w (int_div a d) Integer)
      else if intrinsic = ''.%'' then
        (case args_II h s args of
           Inl e \<Rightarrow> Inl e
         | Inr (a, d) \<Rightarrow>
             if d = 0 then Inl (Panic ''runtime'' ''division by zero'' s)
             else returning w (int_mod a d) Integer)
      else if intrinsic = ''.<'' then
        returning w (args_II h s args) (\<lambda>(a, b). Integer (of_cond (sint a < sint b)))
      else if intrinsic = ''.<='' then
        returning w (args_II h s args) (\<lambda>(a, b). Integer (of_cond (sint a \<le> sint b)))
      else if intrinsic = ''.>'' then
        returning w (args_II h s args) (\<lambda>(a, b). Integer (of_cond (sint b < sint a)))
      else if intrinsic = ''.>='' then
        returning w (args_II h s args) (\<lambda>(a, b). Integer (of_cond (sint b \<le> sint a)))
      else if intrinsic = ''.='' then
        returning w (args_II h s args) (\<lambda>(a, b). Integer (of_cond (a = b)))
      else if intrinsic = ''./='' then
        returning w (args_II h s args) (\<lambda>(a, b). Integer (of_cond (a \<noteq> b)))
      else if intrinsic = ''.and'' then
        returning w (args_II h s args) (\<lambda>(a, b). Integer (of_cond (a \<noteq> 0 \<and> b \<noteq> 0)))
      else if intrinsic = ''.or'' then
        returning w (args_II h s args) (\<lambda>(a, b). Integer (of_cond (a \<noteq> 0 \<or> b \<noteq> 0)))
      else if intrinsic = ''.not'' then
        returning w (args_I h s args) (\<lambda>a. Integer (if a \<noteq> 0 then 0 else 1))
      else if intrinsic = ''.s+'' then
        returning w (args_SS h s args) (\<lambda>(a, b). String (a @ b))
      else if intrinsic = ''.s<'' then
        returning w (args_SS h s args) (\<lambda>(a, b). Integer (of_cond (string_less a b)))
      else if intrinsic = ''.s<='' then
        returning w (args_SS h s args) (\<lambda>(a, b). Integer (of_cond (\<not> string_less b a)))
      else if intrinsic = ''.s>'' then
        returning w (args_SS h s args) (\<lambda>(a, b). Integer (of_cond (string_less b a)))
      else if intrinsic = ''.s>='' then
        returning w (args_SS h s args) (\<lambda>(a, b). Integer (of_cond (\<not> string_less a b)))
      else if intrinsic = ''.s='' then
        returning w (args_SS h s args) (\<lambda>(a, b). Integer (of_cond (a = b)))
      else if intrinsic = ''.s/='' then
        returning w (args_SS h s args) (\<lambda>(a, b). Integer (of_cond (a \<noteq> b)))
      else if intrinsic = ''.s||'' then
        returning w (args_S h s args) (\<lambda>a. Integer (of_nat (length a)))
      else if intrinsic = ''.s[]'' then
        (case args_SII h s args of
           Inl e \<Rightarrow> Inl e
         | Inr (str, l, r) \<Rightarrow>
             (let n = (of_nat (length str) :: cint)
              in if \<not> ((0 \<le> sint l \<and> sint l < sint n) \<and>
                        (0 \<le> sint r \<and> sint r < sint n) \<and>
                        sint l \<le> sint r)
                 then Inl (Panic ''runtime'' ''invalid substring range'' s)
                 else Inr (String (substr str l r), w)))
      else if intrinsic = ''.quote'' then
        returning w (args_S h s args) (\<lambda>a. String (quote a))
      else if intrinsic = ''.unquote'' then
        (case args_S h s args of
           Inl e \<Rightarrow> Inl e
         | Inr a \<Rightarrow> (case unquote a of Inl e \<Rightarrow> Inl e | Inr u \<Rightarrow> Inr (String u, w)))
      else if intrinsic = ''.s->i'' then
        (case args_S h s args of
           Inl e \<Rightarrow> Inl e
         | Inr a \<Rightarrow> (case stoi a of Inl e \<Rightarrow> Inl e | Inr v \<Rightarrow> Inr (Integer v, w)))
      else if intrinsic = ''.i->s'' then
        returning w (args_I h s args) (\<lambda>a. String (to_string a))
      else if intrinsic = ''.type'' then
        returning w (args_V h s args)
          (\<lambda>v. Integer (case v of Void \<Rightarrow> 0 | Integer i \<Rightarrow> 1 | String t \<Rightarrow> 2 | Closure e f \<Rightarrow> 2))
      else if intrinsic = ''.eval'' then
        (case args_S h s args of
           Inl e \<Rightarrow> Inl e
         | Inr src \<Rightarrow> host_eval host src w)
      else if intrinsic = ''.getchar'' then
        (case args_none h s args of
           Inl e \<Rightarrow> Inl e
         | Inr u \<Rightarrow>
             (case host_getchar host w of
                (None, w') \<Rightarrow> Inr (Void, w')
              | (Some c, w') \<Rightarrow> Inr (String [c], w')))
      else if intrinsic = ''.getint'' then
        (case args_none h s args of
           Inl e \<Rightarrow> Inl e
         | Inr u \<Rightarrow>
             (case host_getint host w of
                (None, w') \<Rightarrow> Inr (Void, w')
              | (Some v, w') \<Rightarrow> Inr (Integer v, w')))
      else if intrinsic = ''.putstr'' then
        (case args_S h s args of
           Inl e \<Rightarrow> Inl e
         | Inr a \<Rightarrow> Inr (Void, host_putstr host a w))
      else if intrinsic = ''.flush'' then
        (case args_none h s args of
           Inl e \<Rightarrow> Inl e
         | Inr u \<Rightarrow> Inr (Void, host_flush host w))
      else Inl (Panic ''runtime'' ''unrecognized intrinsic call'' s))"

section \<open>The machine\<close>

subsection \<open>Layers, states and the process around them\<close>

text \<open>
  \<^verbatim>\<open>struct Layer\<close>. Its \<^verbatim>\<open>std::shared_ptr<Env> env\<close> is modelled by the address of
  the \<^verbatim>\<open>Env\<close> object it points to (\<open>envs\<close> below); copying a layer copies the
  pointer, not the object. A null \<^verbatim>\<open>expr\<close> is \<open>None\<close>.
\<close>

record Layer =
  env :: nat
  expr :: "ExprNode option"
  frame :: bool
  pc :: nat
  local :: "Location list"

text \<open>\<^verbatim>\<open>Layer(e, x, f)\<close>: the constructor leaves \<open>pc\<close> at 0 and \<open>local\<close> empty.\<close>

definition newLayer :: "nat \<Rightarrow> ExprNode option \<Rightarrow> bool \<Rightarrow> Layer" where
  "newLayer e x f = \<lparr>env = e, expr = x, frame = f, pc = 0, local = []\<rparr>"

text \<open>
  The members of \<^verbatim>\<open>class State\<close>. The member \<^verbatim>\<open>expr\<close> is \<open>root\<close> here. The stack is
  kept top first: \<^verbatim>\<open>stack.back()\<close> is the head of the list. \<^verbatim>\<open>Location resultLoc\<close>
  has no initialiser and the constructor does not assign it: \<open>None\<close> is the
  indeterminate value it holds until the first assignment, and reading it then is
  undefined.
\<close>

record State =
  root :: ExprNode
  stack :: "Layer list"
  heap :: Heap
  numLiterals :: nat
  resultLoc :: "Location option"

text \<open>
  What the process holds outside a \<^verbatim>\<open>State\<close> object: the \<^verbatim>\<open>Env\<close> objects that
  \<^verbatim>\<open>std::make_shared<Env>\<close> has created, by address, and the part \<open>world\<close> that only
  the host reads and writes.
\<close>

record 'w Process =
  envs :: "Env list"
  world :: 'w

definition env_at :: "'w Process \<Rightarrow> nat \<Rightarrow> Env option" where
  "env_at P a = (if a < length (envs P) then Some (envs P ! a) else None)"

subsection \<open>Single steps, by node class\<close>

text \<open>
  Every function of this subsection is one branch of \<^verbatim>\<open>State::step\<close>. It gets the
  process \<open>P\<close>, the state \<open>s\<close>, the top layer \<open>l\<close> and the layers \<open>rest\<close> below it,
  and returns the process and the state after the step. \<^verbatim>\<open>_errorStack\<close> only writes
  to \<^verbatim>\<open>std::cerr\<close> before a panic and is left out.
\<close>

definition undefinedVariable :: "string \<Rightarrow> SourceLocation \<Rightarrow> error" where
  "undefinedVariable varName s = Panic ''runtime'' (''undefined variable '' @ varName) s"

text \<open>A child layer is pushed on top of the layer \<open>l\<close>, whose \<open>pc\<close> has been advanced.\<close>

definition pushChild :: "Layer \<Rightarrow> ExprNode \<Rightarrow> Layer list \<Rightarrow> Layer list" where
  "pushChild l child rest = newLayer (env l) (Some child) False # l\<lparr>pc := pc l + 1\<rparr> # rest"

definition step_Literal :: "'w Process \<Rightarrow> State \<Rightarrow> Layer list \<Rightarrow> Location \<Rightarrow> error + ('w Process \<times> State)" where
  "step_Literal P s rest loc = Inr (P, s\<lparr>resultLoc := Some loc, stack := rest\<rparr>)"

definition step_Variable ::
  "'w Process \<Rightarrow> State \<Rightarrow> Layer \<Rightarrow> Layer list \<Rightarrow> VariableNode \<Rightarrow> error + ('w Process \<times> State)" where
  "step_Variable P s l rest vnode =
     (case env_at P (env l) of
        None \<Rightarrow> Inl (Undefined ''no such Env object'')
      | Some e \<Rightarrow>
          (case lookup (name vnode) e of
             None \<Rightarrow> Inl (undefinedVariable (name vnode) (sl (vbase vnode)))
           | Some loc \<Rightarrow> Inr (P, s\<lparr>resultLoc := Some loc, stack := rest\<rparr>)))"

text \<open>
  The loop of the lambda branch over the environment from \<^verbatim>\<open>rbegin\<close> to \<^verbatim>\<open>rend\<close>,
  given the reversed environment: it stops when \<open>usedVars\<close> is empty, and it copies
  and erases a name that \<open>usedVars\<close> contains. The result is \<^verbatim>\<open>savedEnv\<close> before the
  final \<^verbatim>\<open>std::reverse\<close>.
\<close>

fun capture :: "string set \<Rightarrow> Env \<Rightarrow> Env" where
  "capture usedVars [] = []"
| "capture usedVars (p # ps) =
     (if usedVars = {} then []
      else if fst p \<in> usedVars then p # capture (usedVars - {fst p}) ps
      else capture usedVars ps)"

definition savedEnv :: "string set \<Rightarrow> Env \<Rightarrow> Env" where
  "savedEnv fv e = rev (capture fv (rev e))"

definition step_Lambda ::
  "'w Process \<Rightarrow> State \<Rightarrow> Layer \<Rightarrow> Layer list \<Rightarrow> LambdaRef \<Rightarrow> error + ('w Process \<times> State)" where
  "step_Lambda P s l rest lnode =
     (case env_at P (env l) of
        None \<Rightarrow> Inl (Undefined ''no such Env object'')
      | Some e \<Rightarrow>
          Inr (P, s\<lparr>heap := heap s @ [Closure (savedEnv (freeVars (fst lnode)) e) lnode],
                    resultLoc := Some (int (length (heap s))),
                    stack := rest\<rparr>))"

text \<open>
  The letrec branch. \<open>letrec_record\<close> is its first block: when the layer comes back
  from the right-hand side of binding \<open>pc - 2\<close>, the value at \<open>resultLoc\<close> is copied
  over the value at the location the name of that binding is bound to.
\<close>

definition letrec_record ::
  "Env \<Rightarrow> State \<Rightarrow> Layer \<Rightarrow> SourceLocation \<Rightarrow> (VariableNode \<times> ExprNode) list \<Rightarrow> error + Heap" where
  "letrec_record e s l s0 varExprList =
     (if pc l > 1 \<and> pc l \<le> length varExprList + 1 then
        (let varName = name (fst (varExprList ! (pc l - 2)))
         in case lookup varName e of
              None \<Rightarrow> Inl (undefinedVariable varName s0)
            | Some loc \<Rightarrow>
                (case resultLoc s of
                   None \<Rightarrow> Inl (Undefined ''resultLoc read before any assignment'')
                 | Some r \<Rightarrow>
                     (case heap_at (heap s) r of
                        None \<Rightarrow> Inl (Undefined ''heap read out of range'')
                      | Some v \<Rightarrow>
                          if 0 \<le> loc \<and> loc < int (length (heap s))
                          then Inr ((heap s)[nat loc := v])
                          else Inl (Undefined ''heap write out of range''))))
      else Inr (heap s))"

text \<open>
  The loop at \<open>pc = 0\<close>: one new Void value and one binding to it for every bound
  name, in order.
\<close>

fun letrec_alloc :: "VariableNode list \<Rightarrow> Env \<Rightarrow> Heap \<Rightarrow> Env \<times> Heap" where
  "letrec_alloc [] e h = (e, h)"
| "letrec_alloc (v # vs) e h = letrec_alloc vs (e @ [(name v, int (length h))]) (h @ [Void])"

definition step_Letrec ::
  "'w Process \<Rightarrow> State \<Rightarrow> Layer \<Rightarrow> Layer list \<Rightarrow> ExprBase \<Rightarrow> (VariableNode \<times> ExprNode) list \<Rightarrow>
   ExprNode \<Rightarrow> error + ('w Process \<times> State)" where
  "step_Letrec P s l rest b varExprList body =
     (case env_at P (env l) of
        None \<Rightarrow> Inl (Undefined ''no such Env object'')
      | Some e \<Rightarrow>
          (case letrec_record e s l (sl b) varExprList of
             Inl err \<Rightarrow> Inl err
           | Inr h \<Rightarrow>
               if pc l = 0 then
                 (let (e', h') = letrec_alloc (map fst varExprList) e h
                  in Inr (P\<lparr>envs := (envs P)[env l := e']\<rparr>,
                          s\<lparr>heap := h', stack := l\<lparr>pc := pc l + 1\<rparr> # rest\<rparr>))
               else if pc l \<le> length varExprList then
                 Inr (P, s\<lparr>heap := h, stack := pushChild l (snd (varExprList ! (pc l - 1))) rest\<rparr>)
               else if pc l = length varExprList + 1 then
                 Inr (P, s\<lparr>heap := h, stack := pushChild l body rest\<rparr>)
               else if length e < length varExprList then
                 Inl (Undefined ''pop_back on an empty vector'')
               else
                 Inr (P\<lparr>envs := (envs P)[env l := take (length e - length varExprList) e]\<rparr>,
                      s\<lparr>heap := h, stack := rest\<rparr>)))"

definition step_If ::
  "'w Process \<Rightarrow> State \<Rightarrow> Layer \<Rightarrow> Layer list \<Rightarrow> ExprBase \<Rightarrow> ExprNode \<Rightarrow> ExprNode \<Rightarrow> ExprNode \<Rightarrow>
   error + ('w Process \<times> State)" where
  "step_If P s l rest b cond branch1 branch2 =
     (if pc l = 0 then Inr (P, s\<lparr>stack := pushChild l cond rest\<rparr>)
      else if pc l = 1 then
        (case resultLoc s of
           None \<Rightarrow> Inl (Undefined ''resultLoc read before any assignment'')
         | Some r \<Rightarrow>
             (case heap_at (heap s) r of
                None \<Rightarrow> Inl (Undefined ''heap read out of range'')
              | Some (Integer v) \<Rightarrow>
                  if v \<noteq> 0 then Inr (P, s\<lparr>stack := pushChild l branch1 rest\<rparr>)
                  else Inr (P, s\<lparr>stack := pushChild l branch2 rest\<rparr>)
              | Some _ \<Rightarrow> Inl (Panic ''runtime'' ''wrong cond type'' (sl b))))
      else Inr (P, s\<lparr>stack := rest\<rparr>))"

definition step_Sequence ::
  "'w Process \<Rightarrow> State \<Rightarrow> Layer \<Rightarrow> Layer list \<Rightarrow> ExprNode list \<Rightarrow> error + ('w Process \<times> State)" where
  "step_Sequence P s l rest exprList =
     (if pc l < length exprList then Inr (P, s\<lparr>stack := pushChild l (exprList ! pc l) rest\<rparr>)
      else Inr (P, s\<lparr>stack := rest\<rparr>))"

text \<open>
  \<^verbatim>\<open>layer.local.push_back(resultLoc)\<close>, the "unified argument recording" of the two
  call branches, when its condition \<open>c\<close> holds.
\<close>

definition record_result :: "bool \<Rightarrow> State \<Rightarrow> Layer \<Rightarrow> error + Layer" where
  "record_result c s l =
     (if c then
        (case resultLoc s of
           None \<Rightarrow> Inl (Undefined ''resultLoc read before any assignment'')
         | Some r \<Rightarrow> Inr (l\<lparr>local := local l @ [r]\<rparr>))
      else Inr l)"

definition step_IntrinsicCall ::
  "'w Host \<Rightarrow> 'w Process \<Rightarrow> State \<Rightarrow> Layer \<Rightarrow> Layer list \<Rightarrow> ExprBase \<Rightarrow> string \<Rightarrow> ExprNode list \<Rightarrow>
   error + ('w Process \<times> State)" where
  "step_IntrinsicCall host P s l0 rest b intrinsic argList =
     (case record_result (pc l0 > 0 \<and> pc l0 \<le> length argList) s l0 of
        Inl err \<Rightarrow> Inl err
      | Inr l \<Rightarrow>
          if pc l < length argList then Inr (P, s\<lparr>stack := pushChild l (argList ! pc l) rest\<rparr>)
          else
            (case callIntrinsic host (heap s) (world P) (sl b) intrinsic (local l) of
               Inl err \<Rightarrow> Inl err
             | Inr (v, w') \<Rightarrow>
                 Inr (P\<lparr>world := w'\<rparr>,
                      s\<lparr>heap := heap s @ [v],
                        resultLoc := Some (int (length (heap s))),
                        stack := rest\<rparr>)))"

text \<open>
  The call step of an \<^verbatim>\<open>ExprCallNode\<close>. \<open>bind_params\<close> is the loop that appends one
  binding per parameter to the copy of the closure's environment; \<open>popToFrame\<close> is
  \<^verbatim>\<open>while (!(stack.back().frame)) stack.pop_back()\<close>, undefined when it runs off the
  bottom of the stack.
\<close>

definition bind_params :: "VariableNode list \<Rightarrow> Location list \<Rightarrow> Env" where
  "bind_params varList args = map (\<lambda>i. (name (varList ! i), args ! i)) [0 ..< length varList]"

fun popToFrame :: "Layer list \<Rightarrow> Layer list option" where
  "popToFrame [] = None"
| "popToFrame (l # ls) = (if frame l then Some (l # ls) else popToFrame ls)"

definition call_closure ::
  "'w Process \<Rightarrow> State \<Rightarrow> Layer \<Rightarrow> Layer list \<Rightarrow> ExprBase \<Rightarrow> error + ('w Process \<times> State)" where
  "call_closure P s l rest b =
     (case local l of
        [] \<Rightarrow> Inl (Undefined ''local[0] on an empty vector'')
      | exprLoc # args \<Rightarrow>
          (case heap_at (heap s) exprLoc of
             None \<Rightarrow> Inl (Undefined ''heap read out of range'')
           | Some (Closure cenv (fb, varList, body)) \<Rightarrow>
               if int (length (local l)) - 1 \<noteq> int (length varList)
               then Inl (Panic ''runtime'' ''wrong number of arguments'' (sl b))
               else
                 (let newEnv = cenv @ bind_params varList args;
                      callee = newLayer (length (envs P)) (Some body) True;
                      P' = P\<lparr>envs := envs P @ [newEnv]\<rparr>
                  in if tail b then
                       (case popToFrame (l\<lparr>pc := pc l + 1\<rparr> # rest) of
                          None \<Rightarrow> Inl (Undefined ''back() on an empty stack'')
                        | Some st \<Rightarrow> Inr (P', s\<lparr>stack := callee # tl st\<rparr>))
                     else Inr (P', s\<lparr>stack := callee # l\<lparr>pc := pc l + 1\<rparr> # rest\<rparr>))
           | Some _ \<Rightarrow> Inl (Panic ''runtime'' ''calling a non-callable'' (sl b))))"

definition step_ExprCall ::
  "'w Process \<Rightarrow> State \<Rightarrow> Layer \<Rightarrow> Layer list \<Rightarrow> ExprBase \<Rightarrow> ExprNode \<Rightarrow> ExprNode list \<Rightarrow>
   error + ('w Process \<times> State)" where
  "step_ExprCall P s l0 rest b callee argList =
     (case record_result (pc l0 > 2 \<and> pc l0 \<le> length argList + 2) s l0 of
        Inl err \<Rightarrow> Inl err
      | Inr l \<Rightarrow>
          if pc l = 0 then Inr (P, s\<lparr>stack := pushChild l callee rest\<rparr>)
          else if pc l = 1 then
            (case record_result True s l of
               Inl err \<Rightarrow> Inl err
             | Inr l' \<Rightarrow> Inr (P, s\<lparr>stack := l'\<lparr>pc := pc l' + 1\<rparr> # rest\<rparr>))
          else if pc l \<le> length argList + 1 then
            Inr (P, s\<lparr>stack := pushChild l (argList ! (pc l - 2)) rest\<rparr>)
          else if pc l = length argList + 2 then call_closure P s l rest b
          else Inr (P, s\<lparr>stack := rest\<rparr>))"

definition step_At ::
  "'w Process \<Rightarrow> State \<Rightarrow> Layer \<Rightarrow> Layer list \<Rightarrow> ExprBase \<Rightarrow> VariableNode \<Rightarrow> ExprNode \<Rightarrow>
   error + ('w Process \<times> State)" where
  "step_At P s l rest b var e =
     (if pc l = 0 then Inr (P, s\<lparr>stack := pushChild l e rest\<rparr>)
      else
        (case resultLoc s of
           None \<Rightarrow> Inl (Undefined ''resultLoc read before any assignment'')
         | Some r \<Rightarrow>
             (case heap_at (heap s) r of
                None \<Rightarrow> Inl (Undefined ''heap read out of range'')
              | Some (Closure cenv f) \<Rightarrow>
                  (case lookup (name var) cenv of
                     None \<Rightarrow> Inl (undefinedVariable (name var) (sl b))
                   | Some loc \<Rightarrow> Inr (P, s\<lparr>resultLoc := Some loc, stack := rest\<rparr>))
              | Some _ \<Rightarrow> Inl (Panic ''runtime'' ''@ wrong type'' (sl b)))))"

subsection \<open>The step function\<close>

text \<open>
  \<^verbatim>\<open>State::step\<close>: the dispatch on the class of the node of the top layer. The
  boolean is the return value of \<^verbatim>\<open>step()\<close>: \<open>False\<close> when the top layer is the main
  frame, whose \<^verbatim>\<open>expr\<close> is null.
\<close>

fun step_node ::
  "'w Host \<Rightarrow> 'w Process \<Rightarrow> State \<Rightarrow> Layer \<Rightarrow> Layer list \<Rightarrow> ExprNode \<Rightarrow> error + ('w Process \<times> State)" where
  "step_node host P s l rest (IntegerNode b v loc) = step_Literal P s rest loc"
| "step_node host P s l rest (StringNode b v loc) = step_Literal P s rest loc"
| "step_node host P s l rest (Variable vnode) = step_Variable P s l rest vnode"
| "step_node host P s l rest (LambdaNode b varList e) = step_Lambda P s l rest (b, varList, e)"
| "step_node host P s l rest (LetrecNode b varExprList e) = step_Letrec P s l rest b varExprList e"
| "step_node host P s l rest (IfNode b c b1 b2) = step_If P s l rest b c b1 b2"
| "step_node host P s l rest (SequenceNode b exprList) = step_Sequence P s l rest exprList"
| "step_node host P s l rest (IntrinsicCallNode b i argList) =
     step_IntrinsicCall host P s l rest b i argList"
| "step_node host P s l rest (ExprCallNode b e argList) = step_ExprCall P s l rest b e argList"
| "step_node host P s l rest (AtNode b v e) = step_At P s l rest b v e"

definition step :: "'w Host \<Rightarrow> 'w Process \<times> State \<Rightarrow> error + (bool \<times> 'w Process \<times> State)" where
  "step host c =
     (case c of (P, s) \<Rightarrow>
        (case stack s of
           [] \<Rightarrow> Inl (Undefined ''back() on an empty stack'')
         | l # rest \<Rightarrow>
             (case expr l of
                None \<Rightarrow> Inr (False, P, s)
              | Some node \<Rightarrow>
                  (case step_node host P s l rest node of
                     Inl err \<Rightarrow> Inl err
                   | Inr (P', s') \<Rightarrow> Inr (True, P', s')))))"

section \<open>Garbage collection\<close>

text \<open>
  \<^verbatim>\<open>traverseLocation\<close> of \<^verbatim>\<open>_mark\<close>. The recursion of the source (a closure's
  environment is traversed before the caller goes on) is written with the list of
  locations still to traverse: those of the closure come before the rest.
\<close>

function traverseLocation :: "Heap \<Rightarrow> Location set \<Rightarrow> Location list \<Rightarrow> error + Location set" where
  "traverseLocation h visited [] = Inr visited"
| "traverseLocation h visited (loc # todo) =
     (if loc \<in> visited then traverseLocation h visited todo
      else (case heap_at h loc of
              None \<Rightarrow> Inl (Undefined ''heap read out of range'')
            | Some (Closure cenv f) \<Rightarrow> traverseLocation h (insert loc visited) (map snd cenv @ todo)
            | Some _ \<Rightarrow> traverseLocation h (insert loc visited) todo))"
  by pat_completeness auto

lemma unvisited_decreases:
  assumes "heap_at h loc = Some v" and "loc \<notin> visited"
  shows "card ({i. 0 \<le> i \<and> i < int (length h)} - insert loc visited)
       < card ({i. 0 \<le> i \<and> i < int (length h)} - visited)"
proof -
  have fin: "finite ({i. 0 \<le> i \<and> i < int (length h)} - visited)"
  proof -
    have "{i. 0 \<le> i \<and> i < int (length h)} = {0 ..< int (length h)}" by auto
    then show ?thesis by simp
  qed
  have mem: "loc \<in> {i. 0 \<le> i \<and> i < int (length h)} - visited"
    using assms by (auto simp add: heap_at_def split: if_splits)
  have eq: "{i. 0 \<le> i \<and> i < int (length h)} - insert loc visited
        = ({i. 0 \<le> i \<and> i < int (length h)} - visited) - {loc}" by auto
  show ?thesis unfolding eq using fin mem by (rule card_Diff1_less)
qed

termination traverseLocation
  by (relation "inv_image (less_than <*lex*> less_than)
        (\<lambda>(h, visited, todo). (card ({i. 0 \<le> i \<and> i < int (length h)} - visited), length todo))")
     (auto simp add: unvisited_decreases)

text \<open>
  The roots of one layer, in the order \<^verbatim>\<open>_mark\<close> visits them: the environment when
  the layer is a frame, then the locals.
\<close>

definition layer_roots :: "'w Process \<Rightarrow> Layer \<Rightarrow> error + Location list" where
  "layer_roots P l =
     (if frame l then
        (case env_at P (env l) of
           None \<Rightarrow> Inl (Undefined ''no such Env object'')
         | Some e \<Rightarrow> Inr (map snd e @ local l))
      else Inr (local l))"

fun stack_roots :: "'w Process \<Rightarrow> Layer list \<Rightarrow> error + Location list" where
  "stack_roots P [] = Inr []"
| "stack_roots P (l # ls) =
     (case layer_roots P l of
        Inl err \<Rightarrow> Inl err
      | Inr r \<Rightarrow> (case stack_roots P ls of Inl err \<Rightarrow> Inl err | Inr rs \<Rightarrow> Inr (r @ rs)))"

text \<open>\<^verbatim>\<open>State::_mark\<close>: the stack from its bottom to its top, then \<^verbatim>\<open>resultLoc\<close>.\<close>

definition mark :: "'w Process \<Rightarrow> State \<Rightarrow> error + Location set" where
  "mark P s =
     (case stack_roots P (rev (stack s)) of
        Inl err \<Rightarrow> Inl err
      | Inr roots \<Rightarrow>
          (case traverseLocation (heap s) {} roots of
             Inl err \<Rightarrow> Inl err
           | Inr visited \<Rightarrow>
               (case resultLoc s of
                  None \<Rightarrow> Inl (Undefined ''resultLoc read before any assignment'')
                | Some r \<Rightarrow> traverseLocation (heap s) visited [r])))"

text \<open>
  The loop of \<^verbatim>\<open>_sweepAndCompact\<close>: \<open>j\<close> runs over the list of indices given, \<open>i\<close>
  is the next free slot, and a visited slot above \<open>i\<close> is moved down and entered in
  the relocation map.
\<close>

type_synonym Relocation = "Location \<Rightarrow> Location option"

fun sweep :: "Location set \<Rightarrow> nat list \<Rightarrow> nat \<Rightarrow> Heap \<Rightarrow> Relocation \<Rightarrow> nat \<times> Heap \<times> Relocation" where
  "sweep visited [] i h relocation = (i, h, relocation)"
| "sweep visited (j # js) i h relocation =
     (if int j \<in> visited then
        (if i < j then sweep visited js (i + 1) (h[i := h ! j]) (relocation(int j \<mapsto> int i))
         else sweep visited js (i + 1) h relocation)
      else sweep visited js i h relocation)"

text \<open>\<^verbatim>\<open>heap.resize(i)\<close>: the vector is cut, or filled up with default values (Void).\<close>

definition resize :: "nat \<Rightarrow> Heap \<Rightarrow> Heap" where
  "resize i h = take i h @ replicate (i - length h) Void"

definition sweepAndCompact :: "Location set \<Rightarrow> State \<Rightarrow> int \<times> Relocation \<times> State" where
  "sweepAndCompact visited s =
     (let n = length (heap s);
          (i, h, relocation) = sweep visited [numLiterals s ..< n] (numLiterals s) (heap s) Map.empty
      in (int n - int i, relocation, s\<lparr>heap := resize i h\<rparr>))"

text \<open>The lambda \<^verbatim>\<open>reloc\<close> of \<^verbatim>\<open>_relocate\<close>, as a function.\<close>

definition reloc :: "Relocation \<Rightarrow> Location \<Rightarrow> Location" where
  "reloc relocation loc = (case relocation loc of Some loc' \<Rightarrow> loc' | None \<Rightarrow> loc)"

definition reloc_env :: "Relocation \<Rightarrow> Env \<Rightarrow> Env" where
  "reloc_env relocation e = map (\<lambda>p. (fst p, reloc relocation (snd p))) e"

definition reloc_value :: "Relocation \<Rightarrow> Value \<Rightarrow> Value" where
  "reloc_value relocation v =
     (case v of Closure cenv f \<Rightarrow> Closure (reloc_env relocation cenv) f | _ \<Rightarrow> v)"

text \<open>
  The loop of \<^verbatim>\<open>_relocate\<close> over the stack writes through the \<^verbatim>\<open>env\<close> pointer of
  every frame layer, one layer after the other.
\<close>

fun reloc_frames :: "Relocation \<Rightarrow> Layer list \<Rightarrow> Env list \<Rightarrow> Env list" where
  "reloc_frames relocation [] es = es"
| "reloc_frames relocation (l # ls) es =
     reloc_frames relocation ls
       (if frame l \<and> env l < length es then es[env l := reloc_env relocation (es ! env l)] else es)"

definition relocate :: "Relocation \<Rightarrow> 'w Process \<Rightarrow> State \<Rightarrow> error + ('w Process \<times> State)" where
  "relocate relocation P s =
     (case resultLoc s of
        None \<Rightarrow> Inl (Undefined ''resultLoc read before any assignment'')
      | Some r \<Rightarrow>
          Inr (P\<lparr>envs := reloc_frames relocation (rev (stack s)) (envs P)\<rparr>,
               s\<lparr>stack := map (\<lambda>l. l\<lparr>local := map (reloc relocation) (local l)\<rparr>) (stack s),
                 resultLoc := Some (reloc relocation r),
                 heap := map (reloc_value relocation) (heap s)\<rparr>))"

text \<open>\<^verbatim>\<open>State::_gc\<close>: the number of slots removed, and the process and state afterwards.\<close>

definition gc :: "'w Process \<Rightarrow> State \<Rightarrow> error + (int \<times> 'w Process \<times> State)" where
  "gc P s =
     (case mark P s of
        Inl err \<Rightarrow> Inl err
      | Inr visited \<Rightarrow>
          (case sweepAndCompact visited s of
             (removed, relocation, s') \<Rightarrow>
               (case relocate relocation P s' of
                  Inl err \<Rightarrow> Inl err
                | Inr (P', s'') \<Rightarrow> Inr (removed, P', s''))))"

section \<open>Running a state\<close>

text \<open>
  The loop of \<^verbatim>\<open>State::execute\<close>. It need not end, so it gets a bound on the number
  of calls of \<^verbatim>\<open>step\<close>: \<open>None\<close> says that the bound was reached, \<open>Some\<close> gives the
  failure or the final process and state. \<open>collect\<close> switches the collector on; the
  source always runs with \<open>collect = True\<close>, and \<open>collect = False\<close> is the run that
  never collects.
\<close>

fun execute_loop ::
  "'w Host \<Rightarrow> bool \<Rightarrow> nat \<Rightarrow> int \<Rightarrow> 'w Process \<times> State \<Rightarrow> (error + 'w Process \<times> State) option" where
  "execute_loop host collect 0 gc_threshold c = None"
| "execute_loop host collect (Suc fuel) gc_threshold c =
     (case step host c of
        Inl err \<Rightarrow> Some (Inl err)
      | Inr (False, c') \<Rightarrow> Some (Inr c')
      | Inr (True, P', s') \<Rightarrow>
          (let total = int (length (heap s'))
           in if collect \<and> total > gc_threshold then
                (case gc P' s' of
                   Inl err \<Rightarrow> Some (Inl err)
                 | Inr (removed, c'') \<Rightarrow> execute_loop host collect fuel ((total - removed) * 2) c'')
              else execute_loop host collect fuel gc_threshold (P', s')))"

definition execute ::
  "'w Host \<Rightarrow> bool \<Rightarrow> nat \<Rightarrow> 'w Process \<times> State \<Rightarrow> (error + 'w Process \<times> State) option" where
  "execute host collect fuel c = execute_loop host collect fuel (int (numLiterals (snd c)) + 64) c"

text \<open>\<^verbatim>\<open>State::getResult\<close>.\<close>

definition getResult :: "State \<Rightarrow> error + Value" where
  "getResult s =
     (case resultLoc s of
        None \<Rightarrow> Inl (Undefined ''resultLoc read before any assignment'')
      | Some r \<Rightarrow>
          (case heap_at (heap s) r of
             None \<Rightarrow> Inl (Undefined ''heap read out of range'')
           | Some v \<Rightarrow> Inr v))"

section \<open>Building and copying a state\<close>

text \<open>
  The pre-allocation of the literals: \<^verbatim>\<open>traverse(topDown, preAllocate)\<close> reaches the
  literal nodes from left to right, in the order of \<^verbatim>\<open>_traverseSubtree\<close>.
\<close>

fun preAllocate :: "ExprNode \<Rightarrow> Heap \<Rightarrow> error + (ExprNode \<times> Heap)"
  and preAllocate_list :: "ExprNode list \<Rightarrow> Heap \<Rightarrow> error + (ExprNode list \<times> Heap)"
  and preAllocate_pairs ::
    "(VariableNode \<times> ExprNode) list \<Rightarrow> Heap \<Rightarrow> error + ((VariableNode \<times> ExprNode) list \<times> Heap)" where
  "preAllocate (IntegerNode b v l) h =
     (case stoi v of Inl err \<Rightarrow> Inl err | Inr i \<Rightarrow> Inr (IntegerNode b v (int (length h)), h @ [Integer i]))"
| "preAllocate (StringNode b v l) h =
     (case unquote v of Inl err \<Rightarrow> Inl err | Inr u \<Rightarrow> Inr (StringNode b v (int (length h)), h @ [String u]))"
| "preAllocate (Variable v) h = Inr (Variable v, h)"
| "preAllocate (LambdaNode b varList e) h =
     (case preAllocate e h of Inl err \<Rightarrow> Inl err | Inr (e', h') \<Rightarrow> Inr (LambdaNode b varList e', h'))"
| "preAllocate (LetrecNode b varExprList e) h =
     (case preAllocate_pairs varExprList h of
        Inl err \<Rightarrow> Inl err
      | Inr (ves', h') \<Rightarrow>
          (case preAllocate e h' of Inl err \<Rightarrow> Inl err | Inr (e', h'') \<Rightarrow> Inr (LetrecNode b ves' e', h'')))"
| "preAllocate (IfNode b c b1 b2) h =
     (case preAllocate c h of
        Inl err \<Rightarrow> Inl err
      | Inr (c', h1) \<Rightarrow>
          (case preAllocate b1 h1 of
             Inl err \<Rightarrow> Inl err
           | Inr (b1', h2) \<Rightarrow>
               (case preAllocate b2 h2 of
                  Inl err \<Rightarrow> Inl err
                | Inr (b2', h3) \<Rightarrow> Inr (IfNode b c' b1' b2', h3))))"
| "preAllocate (SequenceNode b exprList) h =
     (case preAllocate_list exprList h of
        Inl err \<Rightarrow> Inl err
      | Inr (es', h') \<Rightarrow> Inr (SequenceNode b es', h'))"
| "preAllocate (IntrinsicCallNode b i argList) h =
     (case preAllocate_list argList h of
        Inl err \<Rightarrow> Inl err
      | Inr (as', h') \<Rightarrow> Inr (IntrinsicCallNode b i as', h'))"
| "preAllocate (ExprCallNode b e argList) h =
     (case preAllocate e h of
        Inl err \<Rightarrow> Inl err
      | Inr (e', h') \<Rightarrow>
          (case preAllocate_list argList h' of
             Inl err \<Rightarrow> Inl err
           | Inr (as', h'') \<Rightarrow> Inr (ExprCallNode b e' as', h'')))"
| "preAllocate (AtNode b v e) h =
     (case preAllocate e h of Inl err \<Rightarrow> Inl err | Inr (e', h') \<Rightarrow> Inr (AtNode b v e', h'))"
| "preAllocate_list [] h = Inr ([], h)"
| "preAllocate_list (e # es) h =
     (case preAllocate e h of
        Inl err \<Rightarrow> Inl err
      | Inr (e', h') \<Rightarrow>
          (case preAllocate_list es h' of Inl err \<Rightarrow> Inl err | Inr (es', h'') \<Rightarrow> Inr (e' # es', h'')))"
| "preAllocate_pairs [] h = Inr ([], h)"
| "preAllocate_pairs (ve # ves) h =
     (case preAllocate (snd ve) h of
        Inl err \<Rightarrow> Inl err
      | Inr (e', h') \<Rightarrow>
          (case preAllocate_pairs ves h' of
             Inl err \<Rightarrow> Inl err
           | Inr (ves', h'') \<Rightarrow> Inr ((fst ve, e') # ves', h'')))"

text \<open>
  \<^verbatim>\<open>State::State(std::string source)\<close>, from the point where \<^verbatim>\<open>parse(lex(source))\<close>
  has delivered the tree \<open>e\<close>: the duplicate check, the two analyses, the
  pre-allocation, then the main frame with a new empty environment and the layer of
  the whole program on top of it, which shares that environment.
\<close>

definition newState :: "'w Process \<Rightarrow> ExprNode \<Rightarrow> error + ('w Process \<times> State)" where
  "newState P e =
     (case checkDuplicate e of
        Some err \<Rightarrow> Inl err
      | None \<Rightarrow>
          (case preAllocate (computeTail False (computeFreeVars e)) [] of
             Inl err \<Rightarrow> Inl err
           | Inr (e', h) \<Rightarrow>
               Inr (P\<lparr>envs := envs P @ [[]]\<rparr>,
                    \<lparr>root = e',
                     stack = [newLayer (length (envs P)) (Some e') False,
                              newLayer (length (envs P)) None True],
                     heap = h,
                     numLiterals = length h,
                     resultLoc = None\<rparr>)))"

text \<open>
  \<^verbatim>\<open>clone()\<close> of the node classes: a new node with the same location, text and
  children, to which \<^verbatim>\<open>freeVars\<close> and \<^verbatim>\<open>tail\<close> are copied. The member \<^verbatim>\<open>loc\<close> of a
  literal node is not copied: the new node keeps the initial \<open>-1\<close>.
\<close>

definition cloneVar :: "VariableNode \<Rightarrow> VariableNode" where
  "cloneVar v = VariableNode (vbase v) (name v)"

fun cloneNode :: "ExprNode \<Rightarrow> ExprNode" where
  "cloneNode (IntegerNode b v l) = IntegerNode b v (- 1)"
| "cloneNode (StringNode b v l) = StringNode b v (- 1)"
| "cloneNode (Variable v) = Variable (cloneVar v)"
| "cloneNode (LambdaNode b varList e) = LambdaNode b (map cloneVar varList) (cloneNode e)"
| "cloneNode (LetrecNode b varExprList e) =
     LetrecNode b (map (\<lambda>ve. (cloneVar (fst ve), cloneNode (snd ve))) varExprList) (cloneNode e)"
| "cloneNode (IfNode b c b1 b2) = IfNode b (cloneNode c) (cloneNode b1) (cloneNode b2)"
| "cloneNode (SequenceNode b exprList) = SequenceNode b (map cloneNode exprList)"
| "cloneNode (IntrinsicCallNode b i argList) = IntrinsicCallNode b i (map cloneNode argList)"
| "cloneNode (ExprCallNode b e argList) = ExprCallNode b (cloneNode e) (map cloneNode argList)"
| "cloneNode (AtNode b v e) = AtNode b (cloneVar v) (cloneNode e)"

text \<open>
  \<^verbatim>\<open>State::State(const State &)\<close> (the copy assignment builds the same members):
  the tree is cloned; \<^verbatim>\<open>stack(state.stack)\<close> copies the vector of layers, and with
  each layer its \<^verbatim>\<open>std::shared_ptr<Env>\<close>, so the copy of a layer holds the address
  of the same \<^verbatim>\<open>Env\<close> object; the heap and the two scalars are copied. No \<^verbatim>\<open>Env\<close>
  object is created, so the process is unchanged.
\<close>

definition copyState :: "State \<Rightarrow> State" where
  "copyState state =
     \<lparr>root = cloneNode (root state),
      stack = stack state,
      heap = heap state,
      numLiterals = numLiterals state,
      resultLoc = resultLoc state\<rparr>"

section \<open>The captured environment, as the specification words it\<close>

text \<open>
  This definition follows the words of the specification, not the loop of the
  source: of the current environment keep, in their order, exactly the bindings
  whose name is free in the lambda and that are the newest binding of their name
  (no binding further on has the same name).
\<close>

fun newest_free_bindings :: "string set \<Rightarrow> Env \<Rightarrow> Env" where
  "newest_free_bindings fv [] = []"
| "newest_free_bindings fv (p # ps) =
     (if fst p \<in> fv \<and> fst p \<notin> fst ` set ps then p # newest_free_bindings fv ps
      else newest_free_bindings fv ps)"

section \<open>Concrete inputs\<close>

text \<open>
  A host for running examples: no input is ever available, output is discarded, and
  \<^verbatim>\<open>.eval\<close> is refused.
\<close>

definition quiet_host :: "unit Host" where
  "quiet_host =
     \<lparr>host_eval = (\<lambda>src w. Inl (External ''.eval'')),
      host_getchar = (\<lambda>w. (None, w)),
      host_getint = (\<lambda>w. (None, w)),
      host_putstr = (\<lambda>str w. w),
      host_flush = (\<lambda>w. w)\<rparr>"

text \<open>The comparison and logic intrinsics, on integers and on strings.\<close>

definition truth_intrinsics :: "string list" where
  "truth_intrinsics =
     [''.<'', ''.<='', ''.>'', ''.>='', ''.='', ''./='', ''.and'', ''.or'', ''.not'',
      ''.s<'', ''.s<='', ''.s>'', ''.s>='', ''.s='', ''.s/='']"

text \<open>
  Programs are given as the trees the parser delivers: every node with its source
  location, an empty set of free variables, the tail bit off and, for a literal,
  the location \<open>-1\<close>. \<open>node l c\<close> is the base of a node at line \<open>l\<close>, column \<open>c\<close>.
  \<open>run_steps n e\<close> builds a state for \<open>e\<close> in a process without other states and
  calls \<^verbatim>\<open>step\<close> \<open>n\<close> times (the collector is not run).
\<close>

definition node :: "int \<Rightarrow> int \<Rightarrow> ExprBase" where
  "node l c = \<lparr>sl = SourceLocation l c, freeVars = {}, tail = False\<rparr>"

definition empty_process :: "unit Process" where
  "empty_process = \<lparr>envs = [], world = ()\<rparr>"

fun steps :: "nat \<Rightarrow> unit Process \<times> State \<Rightarrow> error + (unit Process \<times> State)" where
  "steps 0 c = Inr c"
| "steps (Suc n) c =
     (case step quiet_host c of
        Inl err \<Rightarrow> Inl err
      | Inr (go, c') \<Rightarrow> steps n c')"

definition run_steps :: "nat \<Rightarrow> ExprNode \<Rightarrow> error + (unit Process \<times> State)" where
  "run_steps n e = (case newState empty_process e of Inl err \<Rightarrow> Inl err | Inr c \<Rightarrow> steps n c)"

definition free_y_lambda :: ExprNode where
  "free_y_lambda = LambdaNode (node 1 1) [] (Variable (VariableNode (node 1 11) ''y''))"

text \<open>
  A state about to evaluate a lambda with the free variables \<open>x\<close> and \<open>z\<close> in an
  environment that binds \<open>x\<close> twice and \<open>z\<close> not at all.
\<close>

definition shadowing_state :: "unit Process \<times> State" where
  "shadowing_state =
     (\<lparr>envs = [[(''x'', 0), (''y'', 1), (''x'', 2)]], world = ()\<rparr>,
      \<lparr>root = LambdaNode (node 1 1\<lparr>freeVars := {''x'', ''z''}\<rparr>) [] (Variable (VariableNode (node 1 11) ''x'')),
       stack = [newLayer 0 (Some (LambdaNode (node 1 1\<lparr>freeVars := {''x'', ''z''}\<rparr>) []
                  (Variable (VariableNode (node 1 11) ''x'')))) False,
                newLayer 0 None True],
       heap = [Integer 10, Integer 20, Integer 30],
       numLiterals = 0,
       resultLoc = None\<rparr>)"

text \<open>
  \<^verbatim>\<open>letrec (x 1) x\<close>, and a letrec of 65 bindings \<^verbatim>\<open>letrec (v1 v1 ... v65 v65) v1\<close>
  without any literal.
\<close>

definition letrec_x :: ExprNode where
  "letrec_x = LetrecNode (node 1 1) [(VariableNode (node 1 9) ''x'', IntegerNode (node 1 11) ''1'' (- 1))]
                (Variable (VariableNode (node 1 14) ''x''))"

definition many_bindings :: ExprNode where
  "many_bindings =
     LetrecNode (node 1 1)
       (map (\<lambda>k. (VariableNode (node 1 9) (CHR ''v'' # nat_digits 10 k),
                   Variable (VariableNode (node 1 9) (CHR ''v'' # nat_digits 10 k))))
          [1 ..< 66])
       (Variable (VariableNode (node 2 1) ''v1''))"

text \<open>
  The loop of the specification,
  \<^verbatim>\<open>letrec (loop lambda (n) (if (.= n 0) 0 (loop (.- n 1)))) (loop N)\<close>, for the
  literal \<open>N\<close> given as text.
\<close>

definition tail_loop :: "string \<Rightarrow> ExprNode" where
  "tail_loop n =
     LetrecNode (node 1 1)
       [(VariableNode (node 1 9) ''loop'',
         LambdaNode (node 1 14) [VariableNode (node 1 22) ''n'']
           (IfNode (node 1 25)
              (IntrinsicCallNode (node 1 28) ''.='' [Variable (VariableNode (node 1 32) ''n''), IntegerNode (node 1 34) ''0'' (- 1)])
              (IntegerNode (node 1 37) ''0'' (- 1))
              (ExprCallNode (node 1 39) (Variable (VariableNode (node 1 40) ''loop''))
                 [IntrinsicCallNode (node 1 45) ''.-'' [Variable (VariableNode (node 1 49) ''n''), IntegerNode (node 1 51) ''1'' (- 1)]])))]
       (ExprCallNode (node 1 57) (Variable (VariableNode (node 1 58) ''loop'')) [IntegerNode (node 1 63) n (- 1)])"

text \<open>
  The run of the loop for \<open>N = 2\<close> after 26 steps: the top layer is the call
  \<^verbatim>\<open>(loop (.- n 1))\<close> with callee and argument evaluated. \<open>after_tail_call\<close> is
  what the next step returns.
\<close>

definition before_tail_call :: "unit Process \<times> State" where
  "before_tail_call = projr (run_steps 26 (tail_loop ''2''))"

definition after_tail_call :: "bool \<times> unit Process \<times> State" where
  "after_tail_call = projr (step quiet_host before_tail_call)"

text \<open>
  The tree of that loop as the constructor of \<^verbatim>\<open>State\<close> leaves it, with the free
  variables, the tail bits and the locations of the four literals filled in
  (\<open>newState_tail_loop\<close> below proves that this is what \<open>newState\<close> builds), and the
  closure that the letrec binds to \<open>loop\<close>, at location 4.
\<close>

definition loop_test :: ExprNode where
  "loop_test =
     IntrinsicCallNode \<lparr>sl = SourceLocation 1 28, freeVars = {''n''}, tail = False\<rparr> ''.=''
       [Variable (VariableNode \<lparr>sl = SourceLocation 1 32, freeVars = {''n''}, tail = False\<rparr> ''n''),
        IntegerNode \<lparr>sl = SourceLocation 1 34, freeVars = {}, tail = False\<rparr> ''0'' 0]"

definition loop_next :: ExprNode where
  "loop_next =
     ExprCallNode \<lparr>sl = SourceLocation 1 39, freeVars = {''n'', ''loop''}, tail = True\<rparr>
       (Variable (VariableNode \<lparr>sl = SourceLocation 1 40, freeVars = {''loop''}, tail = False\<rparr> ''loop''))
       [IntrinsicCallNode \<lparr>sl = SourceLocation 1 45, freeVars = {''n''}, tail = False\<rparr> ''.-''
          [Variable (VariableNode \<lparr>sl = SourceLocation 1 49, freeVars = {''n''}, tail = False\<rparr> ''n''),
           IntegerNode \<lparr>sl = SourceLocation 1 51, freeVars = {}, tail = False\<rparr> ''1'' 2]]"

definition loop_body :: ExprNode where
  "loop_body =
     IfNode \<lparr>sl = SourceLocation 1 25, freeVars = {''loop'', ''n''}, tail = True\<rparr>
       loop_test
       (IntegerNode \<lparr>sl = SourceLocation 1 37, freeVars = {}, tail = True\<rparr> ''0'' 1)
       loop_next"

definition loop_lambda :: LambdaRef where
  "loop_lambda =
     (\<lparr>sl = SourceLocation 1 14, freeVars = {''loop''}, tail = False\<rparr>,
      [VariableNode \<lparr>sl = SourceLocation 1 22, freeVars = {}, tail = False\<rparr> ''n''],
      loop_body)"

definition loop_start :: "string \<Rightarrow> ExprNode" where
  "loop_start n =
     ExprCallNode \<lparr>sl = SourceLocation 1 57, freeVars = {''loop''}, tail = False\<rparr>
       (Variable (VariableNode \<lparr>sl = SourceLocation 1 58, freeVars = {''loop''}, tail = False\<rparr> ''loop''))
       [IntegerNode \<lparr>sl = SourceLocation 1 63, freeVars = {}, tail = False\<rparr> n 3]"

definition loop_prepared :: "string \<Rightarrow> ExprNode" where
  "loop_prepared n =
     LetrecNode \<lparr>sl = SourceLocation 1 1, freeVars = {}, tail = False\<rparr>
       [(VariableNode \<lparr>sl = SourceLocation 1 9, freeVars = {}, tail = False\<rparr> ''loop'',
         LambdaNode (fst loop_lambda) (fst (snd loop_lambda)) loop_body)]
       (loop_start n)"

text \<open>
  \<open>run_within d n c\<close> calls \<^verbatim>\<open>step\<close> \<open>n\<close> times from \<open>c\<close> and gives the last state,
  provided no call fails and the stack never holds more than \<open>d\<close> layers, before, between
  and after the calls.
\<close>

fun run_within :: "nat \<Rightarrow> nat \<Rightarrow> unit Process \<times> State \<Rightarrow> (unit Process \<times> State) option" where
  "run_within d 0 c = (if length (stack (snd c)) \<le> d then Some c else None)"
| "run_within d (Suc n) c =
     (if length (stack (snd c)) \<le> d then
        (case step quiet_host c of Inl err \<Rightarrow> None | Inr (go, c') \<Rightarrow> run_within d n c')
      else None)"

text \<open>
  The states in which an iteration of the loop begins: the frame of the body is on
  top, in an environment of its own that binds \<open>n\<close> to the location \<open>a\<close> of the
  integer \<open>k\<close>; below it are the first call \<^verbatim>\<open>(loop N)\<close>, the letrec and the main
  frame.
\<close>

definition at_iteration :: "string \<Rightarrow> Location \<Rightarrow> cint \<Rightarrow> unit Process \<times> State \<Rightarrow> bool" where
  "at_iteration n a k c =
     (case c of (P, s) \<Rightarrow>
        (\<exists>E. E < length (envs P)
           \<and> envs P ! E = [(''loop'', 4), (''n'', a)]
           \<and> envs P ! 0 = [(''loop'', 4)]
           \<and> stack s =
               [newLayer E (Some loop_body) True,
                \<lparr>env = 0, expr = Some (loop_start n), frame = False, pc = 4, local = [4, 3]\<rparr>,
                \<lparr>env = 0, expr = Some (loop_prepared n), frame = False, pc = 3, local = []\<rparr>,
                newLayer 0 None True])
        \<and> heap_at (heap s) 0 = Some (Integer 0)
        \<and> heap_at (heap s) 1 = Some (Integer 0)
        \<and> heap_at (heap s) 2 = Some (Integer 1)
        \<and> heap_at (heap s) 4 = Some (Closure [(''loop'', 4)] loop_lambda)
        \<and> heap_at (heap s) a = Some (Integer k))"

section \<open>Invariants of a run\<close>

subsection \<open>The nodes on the stack and in the heap\<close>







subsection \<open>The locations a letrec introduces\<close>










subsection \<open>Two runs\<close>







section \<open>Sizes and integers of 32 bits\<close>

lemma sint_word_of_int_32:
  "- (2 ^ 31) \<le> k \<Longrightarrow> k < 2 ^ 31 \<Longrightarrow> sint (word_of_int k :: cint) = k"
  by (simp add: sint_sbintrunc' signed_take_bit_int_eq_self)

lemma sint_of_nat_length:
  "n < 2 ^ 31 \<Longrightarrow> sint (of_nat n :: cint) = int n"
  using sint_word_of_int_32 [of "int n"] by simp

section \<open>Quoting round trip\<close>

lemma quote_loop_app: "quote_loop r s = r @ concat (map quote_char s)"
  by (induction s arbitrary: r) auto

lemma unquote_loop_quote_char:
  "unquote_loop r (quote_char c @ t) = unquote_loop (r @ [c]) t"
  by (simp add: quote_char_def backslash_def dquote_def)

lemma unquote_loop_quoted:
  "unquote_loop r (concat (map quote_char s)) = Inr (r @ s)"
  by (induction s arbitrary: r) (simp_all add: unquote_loop_quote_char del: unquote_loop.simps(2))

lemma quote_shape: "quote s = dquote # concat (map quote_char s) @ [dquote]"
  by (simp add: quote_def quote_loop_app)

text \<open>
  Claim C8. Unquoting the quoted string gives the string back and never fails:
  \<^verbatim>\<open>quote\<close> wraps the string in double quotes and writes a backslash before every
  backslash and double quote only (\<open>quote_shape\<close>), and \<^verbatim>\<open>unquote\<close> decodes exactly
  those pairs. \<^verbatim>\<open>unquote\<close> reads the size of its argument into an \<^verbatim>\<open>int\<close>, so the
  statement is for strings whose quoted form is shorter than \<open>2 ^ 31\<close> bytes.
\<close>

theorem unquote_quote:
  assumes "length (quote s) < 2 ^ 31"
  shows "unquote (quote s) = Inr s"
proof -
  let ?b = "concat (map quote_char s)"
  have q: "quote s = dquote # ?b @ [dquote]" by (rule quote_shape)
  have "sint (of_nat (length (quote s)) :: 32 word) = int (length (quote s))"
    using assms by (rule sint_of_nat_length)
  then have n: "sint (of_nat (length (quote s)) :: 32 word) = int (length ?b) + 2"
    by (simp add: q)
  have last: "quote s ! nat (int (length ?b) + 2 - 1) = dquote"
    by (simp add: q nth_append nat_add_distrib)
  have mid: "take (nat (int (length ?b) + 2 - 2)) (drop 1 (quote s)) = ?b"
    by (simp add: q)
  have first: "quote s ! 0 = dquote" by (simp add: q)
  show ?thesis
    unfolding unquote_def Let_def n last mid first
    by (simp add: unquote_loop_quoted)
qed

theorem unquote_quote_witness:
  "length (quote [CHR ''a'', backslash, CHR ''t'', dquote, tab]) < 2 ^ 31
   \<and> unquote (quote [CHR ''a'', backslash, CHR ''t'', dquote, tab]) =
     Inr [CHR ''a'', backslash, CHR ''t'', dquote, tab]"
  using unquote_quote [of "[CHR ''a'', backslash, CHR ''t'', dquote, tab]"]
  by (simp add: quote_shape quote_char_def backslash_def dquote_def tab_def)

section \<open>Properties of the intrinsics\<close>

lemma sint_cint_bounds: "- (2 ^ 31) \<le> sint (a :: cint) \<and> sint a < 2 ^ 31"
  using sint_ge [of a] sint_lt [of a] by simp

lemma abs_div_abs_bounds: "0 \<le> \<bar>k :: int\<bar> div \<bar>l\<bar> \<and> \<bar>k\<bar> div \<bar>l\<bar> \<le> \<bar>k\<bar>"
proof (cases "k = 0")
  case True
  then show ?thesis by simp
next
  case False
  then have "0 < \<bar>k\<bar>" by simp
  then have "\<bar>k\<bar> div \<bar>l\<bar> \<le> \<bar>k\<bar>" by (rule int_div_le_self)
  moreover have "0 \<le> \<bar>k\<bar> div \<bar>l\<bar>" by (simp add: div_int_pos_iff)
  ultimately show ?thesis by simp
qed

lemma sdiv_abs: "\<bar>(k :: int) sdiv l\<bar> \<le> \<bar>k\<bar> div \<bar>l\<bar>"
  using abs_div_abs_bounds [of k l]
  by (auto simp add: signed_divide_int_def sgn_if)

lemma sint_int_div:
  assumes "\<not> division_overflows a d"
  shows "sint (word_of_int (sint a sdiv sint d) :: cint) = sint a sdiv sint d"
proof -
  let ?k = "sint a" and ?l = "sint d"
  have b: "- (2 ^ 31) \<le> ?k" "?k < 2 ^ 31" using sint_cint_bounds [of a] by auto
  have le: "\<bar>?k sdiv ?l\<bar> \<le> \<bar>?k\<bar> div \<bar>?l\<bar>" by (rule sdiv_abs)
  have le2: "\<bar>?k\<bar> div \<bar>?l\<bar> \<le> \<bar>?k\<bar>" using abs_div_abs_bounds [of ?k ?l] by simp
  have "- (2 ^ 31) \<le> ?k sdiv ?l \<and> ?k sdiv ?l < 2 ^ 31"
  proof (cases "?k = - (2 ^ 31)")
    case False
    then have "\<bar>?k\<bar> < 2 ^ 31" using b by auto
    then show ?thesis using le le2 by auto
  next
    case True
    then have l: "?l \<noteq> - 1" using assms by (auto simp add: division_overflows_def)
    consider "?l = 1" | "?l = 0" | "2 \<le> \<bar>?l\<bar>" using l by linarith
    then show ?thesis
    proof cases
      case 1
      then show ?thesis using True by (simp add: signed_divide_int_def)
    next
      case 2
      then show ?thesis by (simp add: signed_divide_int_def)
    next
      case 3
      have "\<bar>?k\<bar> div \<bar>?l\<bar> \<le> \<bar>?k\<bar> div 2"
        by (rule zdiv_mono2) (use 3 in auto)
      also have "\<dots> = 2 ^ 30" using True by simp
      finally show ?thesis using le by auto
    qed
  qed
  then show ?thesis by (simp add: sint_word_of_int_32)
qed

lemma smod_abs_less: "l \<noteq> 0 \<Longrightarrow> \<bar>(k :: int) smod l\<bar> < \<bar>l\<bar>"
  by (auto simp add: signed_modulo_int_def sgn_if abs_mod_less)

lemma sint_int_mod:
  assumes "(d :: cint) \<noteq> 0"
  shows "sint (word_of_int (sint a smod sint d) :: cint) = sint a smod sint d"
proof -
  have "sint d \<noteq> 0" using assms by (simp add: signed_eq_0_iff)
  then have "\<bar>sint a smod sint d\<bar> < \<bar>sint d\<bar>" by (rule smod_abs_less)
  moreover have "\<bar>sint d\<bar> \<le> 2 ^ 31" using sint_cint_bounds [of d] by auto
  ultimately have "- (2 ^ 31) \<le> sint a smod sint d \<and> sint a smod sint d < 2 ^ 31" by auto
  then show ?thesis by (simp add: sint_word_of_int_32)
qed

lemma args_II_ok:
  "heap_at h x = Some (Integer a) \<Longrightarrow> heap_at h y = Some (Integer b) \<Longrightarrow>
   args_II h s [x, y] = Inr (a, b)"
  by (simp add: args_II_def typecheck_def getInteger_def)

lemma args_I_ok:
  "heap_at h x = Some (Integer a) \<Longrightarrow> args_I h s [x] = Inr a"
  by (simp add: args_I_def typecheck_def getInteger_def)

lemma args_V_ok:
  "heap_at h x = Some v \<Longrightarrow> args_V h s [x] = Inr v"
  by (simp add: args_V_def typecheck_def)

lemma args_SII_ok:
  "heap_at h x = Some (String str) \<Longrightarrow> heap_at h y = Some (Integer l) \<Longrightarrow>
   heap_at h z = Some (Integer r) \<Longrightarrow> args_SII h s [x, y, z] = Inr (str, l, r)"
  by (simp add: args_SII_def typecheck_def getInteger_def getString_def)

text \<open>
  Claim C9. On two integer arguments \<^verbatim>\<open>.+\<close>, \<^verbatim>\<open>.-\<close> and \<^verbatim>\<open>.*\<close> always return
  an integer. \<^verbatim>\<open>./\<close> and \<^verbatim>\<open>.%\<close> stop with the runtime error "division by zero"
  when the second argument is 0; when it is not, they return the quotient rounded
  towards zero and its remainder (read as signed values) for all operands but
  one pair: the source only tests the divisor for 0, so the least integer divided
  by \<open>-1\<close> reaches the undefined division of C++, which is neither the runtime
  error nor a returned integer.
\<close>

theorem arithmetic_intrinsics:
  assumes "heap_at h x = Some (Integer a)" and "heap_at h y = Some (Integer b)"
  shows "callIntrinsic host h w s ''.+'' [x, y] = Inr (Integer (a + b), w)
       \<and> callIntrinsic host h w s ''.-'' [x, y] = Inr (Integer (a - b), w)
       \<and> callIntrinsic host h w s ''.*'' [x, y] = Inr (Integer (a * b), w)
       \<and> callIntrinsic host h w s ''./'' [x, y] =
           (if b = 0 then Inl (Panic ''runtime'' ''division by zero'' s)
            else if division_overflows a b then Inl (Undefined ''int division overflow'')
            else Inr (Integer (word_of_int (sint a sdiv sint b)), w))
       \<and> callIntrinsic host h w s ''.%'' [x, y] =
           (if b = 0 then Inl (Panic ''runtime'' ''division by zero'' s)
            else if division_overflows a b then Inl (Undefined ''int division overflow'')
            else Inr (Integer (word_of_int (sint a smod sint b)), w))
       \<and> (\<not> division_overflows a b \<longrightarrow>
            sint (word_of_int (sint a sdiv sint b) :: cint) = sint a sdiv sint b)
       \<and> (b \<noteq> 0 \<longrightarrow> sint (word_of_int (sint a smod sint b) :: cint) = sint a smod sint b)"
proof -
  note ok = args_II_ok [OF assms, of s]
  have "callIntrinsic host h w s ''.+'' [x, y] = Inr (Integer (a + b), w)"
    by (simp add: callIntrinsic_def returning_def ok)
  moreover have "callIntrinsic host h w s ''.-'' [x, y] = Inr (Integer (a - b), w)"
    by (simp add: callIntrinsic_def returning_def ok)
  moreover have "callIntrinsic host h w s ''.*'' [x, y] = Inr (Integer (a * b), w)"
    by (simp add: callIntrinsic_def returning_def ok)
  moreover have "callIntrinsic host h w s ''./'' [x, y] =
           (if b = 0 then Inl (Panic ''runtime'' ''division by zero'' s)
            else if division_overflows a b then Inl (Undefined ''int division overflow'')
            else Inr (Integer (word_of_int (sint a sdiv sint b)), w))"
    by (simp add: callIntrinsic_def returning_def int_div_def ok)
  moreover have "callIntrinsic host h w s ''.%'' [x, y] =
           (if b = 0 then Inl (Panic ''runtime'' ''division by zero'' s)
            else if division_overflows a b then Inl (Undefined ''int division overflow'')
            else Inr (Integer (word_of_int (sint a smod sint b)), w))"
    by (simp add: callIntrinsic_def returning_def int_mod_def ok)
  ultimately show ?thesis
    using sint_int_div [of a b] sint_int_mod [of b a] by blast
qed

text \<open>
  The operands \<open>-2147483648\<close> and \<open>-1\<close>, as in \<^verbatim>\<open>(./ -2147483648 -1)\<close>: the divisor
  is not 0 and neither \<^verbatim>\<open>./\<close> nor \<^verbatim>\<open>.%\<close> returns; and the operands 7 and \<open>-2\<close>, with
  quotient \<open>-3\<close> and remainder 1.
\<close>

theorem arithmetic_intrinsics_witness:
  "heap_at [Integer (- 2147483648), Integer (- 1), Integer 7, Integer (- 2)] 0 = Some (Integer (- 2147483648))
   \<and> heap_at [Integer (- 2147483648), Integer (- 1), Integer 7, Integer (- 2)] 1 = Some (Integer (- 1))
   \<and> (- 1 :: cint) \<noteq> 0
   \<and> callIntrinsic quiet_host [Integer (- 2147483648), Integer (- 1), Integer 7, Integer (- 2)] ()
        (SourceLocation 1 1) ''./'' [0, 1] = Inl (Undefined ''int division overflow'')
   \<and> callIntrinsic quiet_host [Integer (- 2147483648), Integer (- 1), Integer 7, Integer (- 2)] ()
        (SourceLocation 1 1) ''.%'' [0, 1] = Inl (Undefined ''int division overflow'')
   \<and> callIntrinsic quiet_host [Integer (- 2147483648), Integer (- 1), Integer 7, Integer (- 2)] ()
        (SourceLocation 1 1) ''./'' [2, 3] = Inr (Integer (- 3), ())
   \<and> callIntrinsic quiet_host [Integer (- 2147483648), Integer (- 1), Integer 7, Integer (- 2)] ()
        (SourceLocation 1 1) ''.%'' [2, 3] = Inr (Integer 1, ())"
proof -
  let ?h = "[Integer (- 2147483648), Integer (- 1), Integer 7, Integer (- 2)]"
  have a: "heap_at ?h 0 = Some (Integer (- 2147483648))"
    and b: "heap_at ?h 1 = Some (Integer (- 1))"
    and c: "heap_at ?h 2 = Some (Integer 7)"
    and d: "heap_at ?h 3 = Some (Integer (- 2))"
    by (simp_all add: heap_at_def)
  have o: "division_overflows (- 2147483648) (- 1)" "\<not> division_overflows 7 (- 2)"
    by (simp_all add: division_overflows_def)
  have s7: "sint (7 :: cint) = 7" and s2: "sint (- 2 :: cint) = - 2" by simp_all
  have q: "(7 :: int) sdiv - 2 = - 3" and r: "(7 :: int) smod - 2 = 1"
    by (simp_all add: signed_divide_int_def signed_modulo_int_def)
  show ?thesis
    using arithmetic_intrinsics [OF a b, of quiet_host "()" "SourceLocation 1 1"]
      arithmetic_intrinsics [OF c d, of quiet_host "()" "SourceLocation 1 1"] a b o
    by (simp add: s7 s2 q r)
qed

text \<open>
  Claim C7. \<^verbatim>\<open>.type\<close> on one argument never fails and returns 0 for Void, 1 for an
  Integer and 2 for every other value, a String as well as a Closure.
\<close>

theorem type_intrinsic:
  assumes "heap_at h x = Some v"
  shows "callIntrinsic host h w s ''.type'' [x] =
           Inr (Integer (case v of Void \<Rightarrow> 0 | Integer i \<Rightarrow> 1 | String t \<Rightarrow> 2 | Closure e f \<Rightarrow> 2), w)"
  by (simp add: callIntrinsic_def returning_def args_V_ok [OF assms])

theorem type_intrinsic_witness:
  "heap_at [Void, Integer 5, String ''a'', Closure [] (\<lparr>sl = SourceLocation 1 1, freeVars = {}, tail = False\<rparr>, [], IntegerNode \<lparr>sl = SourceLocation 1 11, freeVars = {}, tail = True\<rparr> ''1'' 0)] 3
     = Some (Closure [] (\<lparr>sl = SourceLocation 1 1, freeVars = {}, tail = False\<rparr>, [], IntegerNode \<lparr>sl = SourceLocation 1 11, freeVars = {}, tail = True\<rparr> ''1'' 0))
   \<and> callIntrinsic quiet_host [Void, Integer 5, String ''a'', Closure [] (\<lparr>sl = SourceLocation 1 1, freeVars = {}, tail = False\<rparr>, [], IntegerNode \<lparr>sl = SourceLocation 1 11, freeVars = {}, tail = True\<rparr> ''1'' 0)] ()
        (SourceLocation 1 1) ''.type'' [3] = Inr (Integer 2, ())"
proof -
  let ?c = "Closure [] (\<lparr>sl = SourceLocation 1 1, freeVars = {}, tail = False\<rparr>, [], IntegerNode \<lparr>sl = SourceLocation 1 11, freeVars = {}, tail = True\<rparr> ''1'' 0)"
  have a: "heap_at [Void, Integer 5, String ''a'', ?c] 3 = Some ?c"
    by (simp add: heap_at_def)
  show ?thesis
    using type_intrinsic [OF a, of quiet_host "()" "SourceLocation 1 1"] a by simp
qed

lemma sint_diff_32:
  fixes l r :: cint
  assumes "0 \<le> sint l" "sint l \<le> sint r"
  shows "sint (r - l) = sint r - sint l"
proof -
  have "sint r < 2 ^ 31" using sint_cint_bounds [of r] by simp
  then have "- (2 ^ 31) \<le> sint r - sint l \<and> sint r - sint l < 2 ^ 31"
    using assms by auto
  then show ?thesis
    by (simp add: sint_word_ariths signed_take_bit_int_eq_self)
qed

lemma take_drop_butlast:
  assumes "l \<le> r" "r < length xs"
  shows "take (r - l) (drop l xs) = take (r - l) (drop l (butlast xs))"
proof -
  have "drop l (butlast xs) = take (length xs - 1 - l) (drop l xs)"
    by (simp add: butlast_conv_take drop_take)
  then show ?thesis using assms by (simp add: min_def)
qed

text \<open>
  Claim C6. \<^verbatim>\<open>.s[] s l r\<close> on a string and two integers stops with the runtime
  error "invalid substring range" exactly when \<open>0 \<le> l \<le> r < |s|\<close> fails, so always on
  the empty string; otherwise it returns the characters of \<open>s\<close> from index \<open>l\<close> up
  to index \<open>r\<close> exclusive, which never include the last character of \<open>s\<close>.
  The size of the string is read into an \<^verbatim>\<open>int\<close>, so the string is taken to be
  shorter than \<open>2 ^ 31\<close>.
\<close>

theorem substring_intrinsic:
  assumes "heap_at h x = Some (String str)" and "heap_at h y = Some (Integer l)"
    and "heap_at h z = Some (Integer r)" and "length str < 2 ^ 31"
  shows "callIntrinsic host h w s ''.s[]'' [x, y, z] =
           (if 0 \<le> sint l \<and> sint l \<le> sint r \<and> sint r < int (length str)
            then Inr (String (take (nat (sint r) - nat (sint l)) (drop (nat (sint l)) str)), w)
            else Inl (Panic ''runtime'' ''invalid substring range'' s))
       \<and> (str = [] \<longrightarrow>
            callIntrinsic host h w s ''.s[]'' [x, y, z] =
              Inl (Panic ''runtime'' ''invalid substring range'' s))
       \<and> (0 \<le> sint l \<and> sint l \<le> sint r \<and> sint r < int (length str) \<longrightarrow>
            take (nat (sint r) - nat (sint l)) (drop (nat (sint l)) str) =
            take (nat (sint r) - nat (sint l)) (drop (nat (sint l)) (butlast str)))"
proof -
  note ok = args_SII_ok [OF assms(1-3), of s]
  have n: "sint (of_nat (length str) :: cint) = int (length str)"
    using assms(4) by (rule sint_of_nat_length)
  have main: "callIntrinsic host h w s ''.s[]'' [x, y, z] =
           (if 0 \<le> sint l \<and> sint l \<le> sint r \<and> sint r < int (length str)
            then Inr (String (take (nat (sint r) - nat (sint l)) (drop (nat (sint l)) str)), w)
            else Inl (Panic ''runtime'' ''invalid substring range'' s))"
  proof (cases "0 \<le> sint l \<and> sint l \<le> sint r \<and> sint r < int (length str)")
    case True
    then have d: "sint (r - l) = sint r - sint l" by (simp add: sint_diff_32)
    have "nat (sint r - sint l) = nat (sint r) - nat (sint l)" using True by (simp add: nat_diff_distrib)
    then show ?thesis using True
      by (simp add: callIntrinsic_def ok Let_def n substr_def d)
  next
    case False
    then show ?thesis
      by (auto simp add: callIntrinsic_def ok Let_def n)
  qed
  moreover have "0 \<le> sint l \<and> sint l \<le> sint r \<and> sint r < int (length str) \<longrightarrow>
            take (nat (sint r) - nat (sint l)) (drop (nat (sint l)) str) =
            take (nat (sint r) - nat (sint l)) (drop (nat (sint l)) (butlast str))"
    by (auto intro!: take_drop_butlast)
  ultimately show ?thesis by auto
qed

theorem substring_intrinsic_witness:
  "heap_at [String ''abc'', Integer 0, Integer 2] 0 = Some (String ''abc'')
   \<and> heap_at [String ''abc'', Integer 0, Integer 2] 1 = Some (Integer 0)
   \<and> heap_at [String ''abc'', Integer 0, Integer 2] 2 = Some (Integer 2)
   \<and> length ''abc'' < (2 :: nat) ^ 31
   \<and> callIntrinsic quiet_host [String ''abc'', Integer 0, Integer 2] () (SourceLocation 1 1) ''.s[]'' [0, 1, 2]
       = Inr (String ''ab'', ())
   \<and> callIntrinsic quiet_host [String ''abc'', Integer 0, Integer 2] () (SourceLocation 1 1) ''.s[]'' [0, 2, 1]
       = Inl (Panic ''runtime'' ''invalid substring range'' (SourceLocation 1 1))"
proof -
  let ?h = "[String ''abc'', Integer 0, Integer 2]"
  have a: "heap_at ?h 0 = Some (String ''abc'')"
    and b: "heap_at ?h 1 = Some (Integer 0)"
    and c: "heap_at ?h 2 = Some (Integer 2)"
    by (simp_all add: heap_at_def)
  have len: "length ''abc'' < (2 :: nat) ^ 31" by simp
  have s2: "sint (2 :: cint) = 2" by simp
  show ?thesis
    using substring_intrinsic [OF a b c len, of quiet_host "()" "SourceLocation 1 1"]
      substring_intrinsic [OF a c b len, of quiet_host "()" "SourceLocation 1 1"] a b c
    by (simp add: s2)
qed

lemma returning_truth:
  "returning w r (\<lambda>x. Integer (of_cond (c x))) = Inr (v, w') \<Longrightarrow> v = Integer 0 \<or> v = Integer 1"
  by (auto simp add: returning_def of_cond_def split: sum.splits)

lemma returning_truth2:
  "returning w r (\<lambda>(a, b). Integer (of_cond (c a b))) = Inr (v, w') \<Longrightarrow> v = Integer 0 \<or> v = Integer 1"
  by (auto simp add: returning_def of_cond_def split: sum.splits)

lemma returning_not:
  "returning w r (\<lambda>a. Integer (if a \<noteq> 0 then 0 else 1)) = Inr (v, w') \<Longrightarrow> v = Integer 0 \<or> v = Integer 1"
  by (auto simp add: returning_def split: sum.splits)

lemma truth_each:
  assumes m: "i \<in> set truth_intrinsics" and r: "callIntrinsic host h w s i args = Inr (v, w')"
  shows "v = Integer 0 \<or> v = Integer 1"
proof -
  from m have "i = ''.<'' \<or> i = ''.<='' \<or> i = ''.>'' \<or> i = ''.>='' \<or> i = ''.='' \<or> i = ''./='' \<or> i = ''.and'' \<or> i = ''.or'' \<or> i = ''.not'' \<or> i = ''.s<'' \<or> i = ''.s<='' \<or> i = ''.s>'' \<or> i = ''.s>='' \<or> i = ''.s='' \<or> i = ''.s/=''"
    unfolding truth_intrinsics_def by simp
  then show ?thesis
    using r
    apply (elim disjE)
                  apply (simp_all add: callIntrinsic_def)
                  apply (erule returning_truth2 returning_not)+
    done
qed

text \<open>
  Claim C10. Whenever one of the comparison and logic intrinsics of
  \<open>truth_intrinsics\<close> returns, on whatever arguments, the value is the Integer 0 or the
  Integer 1; \<^verbatim>\<open>.and\<close>, \<^verbatim>\<open>.or\<close> and \<^verbatim>\<open>.not\<close> read every nonzero integer as true.
\<close>

theorem truth_intrinsics_0_or_1:
  "(intrinsic \<in> set truth_intrinsics \<and> callIntrinsic host h w s intrinsic args = Inr (v, w')
      \<longrightarrow> v = Integer 0 \<or> v = Integer 1)
   \<and> (heap_at h x = Some (Integer a) \<and> heap_at h y = Some (Integer b) \<longrightarrow>
        callIntrinsic host h w s ''.and'' [x, y] = Inr (Integer (if a \<noteq> 0 \<and> b \<noteq> 0 then 1 else 0), w)
      \<and> callIntrinsic host h w s ''.or'' [x, y] = Inr (Integer (if a \<noteq> 0 \<or> b \<noteq> 0 then 1 else 0), w)
      \<and> callIntrinsic host h w s ''.not'' [x] = Inr (Integer (if a \<noteq> 0 then 0 else 1), w))"
proof -
  have one: "v = Integer 0 \<or> v = Integer 1"
    if "intrinsic \<in> set truth_intrinsics" and "callIntrinsic host h w s intrinsic args = Inr (v, w')"
    using that by (rule truth_each)
  have two: "callIntrinsic host h w s ''.and'' [x, y] = Inr (Integer (if a \<noteq> 0 \<and> b \<noteq> 0 then 1 else 0), w)
      \<and> callIntrinsic host h w s ''.or'' [x, y] = Inr (Integer (if a \<noteq> 0 \<or> b \<noteq> 0 then 1 else 0), w)
      \<and> callIntrinsic host h w s ''.not'' [x] = Inr (Integer (if a \<noteq> 0 then 0 else 1), w)"
    if "heap_at h x = Some (Integer a)" and "heap_at h y = Some (Integer b)"
    using args_II_ok [OF that, of s] args_I_ok [OF that(1), of s]
    by (simp add: callIntrinsic_def returning_def of_cond_def)
  show ?thesis using one two by blast
qed

theorem truth_intrinsics_0_or_1_witness:
  "''.and'' \<in> set truth_intrinsics
   \<and> heap_at [Integer 5, Integer (- 3)] 0 = Some (Integer 5)
   \<and> heap_at [Integer 5, Integer (- 3)] 1 = Some (Integer (- 3))
   \<and> callIntrinsic quiet_host [Integer 5, Integer (- 3)] () (SourceLocation 1 1) ''.and'' [0, 1]
       = Inr (Integer 1, ())
   \<and> (Integer 1 = Integer 0 \<or> Integer 1 = Integer 1)"
proof -
  let ?h = "[Integer 5, Integer (- 3)]"
  have a: "heap_at ?h 0 = Some (Integer 5)" and b: "heap_at ?h 1 = Some (Integer (- 3))"
    by (simp_all add: heap_at_def)
  have m: "''.and'' \<in> set truth_intrinsics" by (simp add: truth_intrinsics_def)
  have r: "callIntrinsic quiet_host ?h () (SourceLocation 1 1) ''.and'' [0, 1] = Inr (Integer 1, ())"
    using truth_intrinsics_0_or_1 [of _ quiet_host ?h "()" "SourceLocation 1 1" _ _ _ 0 5 1 "- 3"] a b
    by simp
  have "Integer 1 = Integer 0 \<or> Integer 1 = Integer 1"
    using truth_intrinsics_0_or_1 [of "''.and''" quiet_host ?h "()" "SourceLocation 1 1" "[0, 1]" "Integer 1" "()"] m r
    by blast
  then show ?thesis using a b m r by blast
qed

section \<open>The environment a closure captures\<close>

lemma newest_free_bindings_empty: "newest_free_bindings {} e = []"
  by (induction e) auto

lemma newest_free_bindings_snoc:
  "newest_free_bindings fv (ys @ [p]) =
     (if fst p \<in> fv then newest_free_bindings (fv - {fst p}) ys @ [p]
      else newest_free_bindings fv ys)"
  by (induction ys) auto

lemma capture_newest: "capture fv xs = rev (newest_free_bindings fv (rev xs))"
proof (induction fv xs rule: capture.induct)
  case (1 usedVars)
  then show ?case by simp
next
  case (2 usedVars p ps)
  then show ?case
    by (simp add: newest_free_bindings_snoc newest_free_bindings_empty)
qed

lemma savedEnv_newest: "savedEnv fv e = newest_free_bindings fv e"
  by (simp add: savedEnv_def capture_newest)

lemma newest_names: "fst ` set (newest_free_bindings fv e) = fv \<inter> fst ` set e"
  by (induction e) auto

lemma newest_subset: "set (newest_free_bindings fv e) \<subseteq> set e"
  by (induction e) auto

lemma newest_distinct: "distinct (map fst (newest_free_bindings fv e))"
proof (induction e)
  case Nil
  then show ?case by simp
next
  case (Cons p ps)
  have "fst ` set (newest_free_bindings fv ps) \<subseteq> fst ` set ps"
    using newest_subset [of fv ps] by blast
  with Cons show ?case by auto
qed

lemma lookup_Cons:
  "lookup n (p # ps) = (case lookup n ps of Some l \<Rightarrow> Some l | None \<Rightarrow> if fst p = n then Some (snd p) else None)"
proof -
  have "lookup_rev n (xs @ [p]) = (case lookup_rev n xs of Some l \<Rightarrow> Some l | None \<Rightarrow> if fst p = n then Some (snd p) else None)" for xs
    by (induction xs) auto
  then show ?thesis by (simp add: lookup_def)
qed

lemma lookup_Nil: "lookup n [] = None"
  by (simp add: lookup_def)

lemma lookup_None_iff: "lookup n e = None \<longleftrightarrow> n \<notin> fst ` set e"
  by (induction e) (auto simp add: lookup_Cons lookup_Nil split: option.splits)

lemma newest_lookup:
  "n \<in> fv \<Longrightarrow> lookup n (newest_free_bindings fv e) = lookup n e"
proof (induction e)
  case Nil
  then show ?case by (simp add: lookup_Nil)
next
  case (Cons p ps)
  show ?case
  proof (cases "fst p \<in> fv \<and> fst p \<notin> fst ` set ps")
    case True
    then show ?thesis using Cons
      by (auto simp add: lookup_Cons split: option.splits)
  next
    case False
    then have "fst p = n \<Longrightarrow> lookup n ps \<noteq> None"
      using Cons.prems by (auto simp add: lookup_None_iff)
    then show ?thesis using False Cons
      by (auto simp add: lookup_Cons split: option.splits)
  qed
qed

text \<open>
  Claim C5, as amended. The step that evaluates a lambda allocates one closure at
  the end of the heap, publishes its location and pops the layer. The environment
  of the closure is \<open>newest_free_bindings\<close> of the free variables of the node: the
  newest binding of every free name that the current environment binds (a free name
  without a binding is not captured), in the order of the environment, and no
  binding of any other name. So the names captured are distinct, they are the free
  names bound in the environment, and every free name is looked up in the closure
  as in the environment.
\<close>

theorem lambda_capture:
  assumes "stack s = l # rest" and "expr l = Some (LambdaNode b varList body)"
    and "env_at P (env l) = Some e"
  shows "step host (P, s) =
           Inr (True, P,
                s\<lparr>heap := heap s @ [Closure (newest_free_bindings (freeVars b) e) (b, varList, body)],
                  resultLoc := Some (int (length (heap s))),
                  stack := rest\<rparr>)
       \<and> distinct (map fst (newest_free_bindings (freeVars b) e))
       \<and> fst ` set (newest_free_bindings (freeVars b) e) = freeVars b \<inter> fst ` set e
       \<and> (\<forall>n \<in> freeVars b. lookup n (newest_free_bindings (freeVars b) e) = lookup n e)"
  using assms
  by (simp add: step_def step_Lambda_def savedEnv_newest newest_distinct newest_names newest_lookup)

theorem lambda_capture_witness:
  "step quiet_host shadowing_state =
     Inr (True, fst shadowing_state,
          (snd shadowing_state)
            \<lparr>heap := [Integer 10, Integer 20, Integer 30,
                      Closure [(''x'', 2)]
                        (node 1 1\<lparr>freeVars := {''x'', ''z''}\<rparr>, [], Variable (VariableNode (node 1 11) ''x''))],
              resultLoc := Some 3,
              stack := [newLayer 0 None True]\<rparr>)"
proof -
  let ?l = "newLayer 0 (Some (LambdaNode (node 1 1\<lparr>freeVars := {''x'', ''z''}\<rparr>) []
                  (Variable (VariableNode (node 1 11) ''x'')))) False"
  have a: "stack (snd shadowing_state) = ?l # [newLayer 0 None True]"
    by (simp add: shadowing_state_def)
  have b: "expr ?l = Some (LambdaNode (node 1 1\<lparr>freeVars := {''x'', ''z''}\<rparr>) []
                  (Variable (VariableNode (node 1 11) ''x'')))"
    by (simp add: newLayer_def)
  have c: "env_at (fst shadowing_state) (env ?l) = Some [(''x'', 0), (''y'', 1), (''x'', 2)]"
    by (simp add: shadowing_state_def env_at_def newLayer_def)
  have d: "newest_free_bindings {''x'', ''z''} [(''x'', 0), (''y'', 1), (''x'', 2)] = [(''x'', 2)]"
    by simp
  show ?thesis
    using lambda_capture [OF a b c, of quiet_host] d
    by (simp add: shadowing_state_def node_def)
qed

text \<open>
  Claim C5 as stated fails on \<^verbatim>\<open>lambda () y\<close>: the closure holds no binding, though
  \<open>y\<close> is a free variable of the node.
\<close>

theorem lambda_capture_counterexample:
  "map_sum id (heap \<circ> snd) (run_steps 1 free_y_lambda) =
   Inr [Closure []
         (\<lparr>sl = SourceLocation 1 1, freeVars = {''y''}, tail = False\<rparr>, [],
          Variable (VariableNode \<lparr>sl = SourceLocation 1 11, freeVars = {''y''}, tail = True\<rparr> ''y''))]"
  by code_simp

section \<open>Tail calls\<close>

lemma popToFrame_dropWhile:
  "popToFrame st = Some st' \<Longrightarrow> st' = dropWhile (\<lambda>x. \<not> frame x) st \<and> st' \<noteq> [] \<and> frame (hd st')"
  by (induction st) (auto split: if_splits)

lemma frames_dropWhile:
  "filter frame (dropWhile (\<lambda>x. \<not> frame x) st) = filter frame st"
  by (induction st) auto

lemma frames_tl:
  "st \<noteq> [] \<Longrightarrow> frame (hd st) \<Longrightarrow> Suc (length (filter frame (tl st))) = length (filter frame st)"
  by (cases st) auto

lemma record_result_frame:
  "record_result c s l = Inr l' \<Longrightarrow> frame l' = frame l \<and> pc l' = pc l \<and> expr l' = expr l \<and> env l' = env l"
  by (auto simp add: record_result_def split: if_splits option.splits)

text \<open>
  The call step of a call marked tail, with its callee and arguments evaluated: the
  closure is read at the first recorded location, the new frame runs its body in a
  new environment (the closure's bindings, then one binding per parameter), and it
  replaces the layers of the old stack down to and including the nearest frame.
\<close>

lemma tail_call_frame:
  assumes st: "stack s = l # rest"
    and ex: "expr l = Some (ExprCallNode b callee argList)"
    and tl: "tail b"
    and pc: "pc l = length argList + 2"
    and step: "step host (P, s) = Inr (go, P', s')"
  shows "\<exists>l1 exprLoc args cenv fb varList body.
            record_result (pc l > 2 \<and> pc l \<le> length argList + 2) s l = Inr l1
          \<and> local l1 = exprLoc # args
          \<and> heap_at (heap s) exprLoc = Some (Closure cenv (fb, varList, body))
          \<and> length args = length varList
          \<and> stack s' = newLayer (length (envs P)) (Some body) True
                          # tl (dropWhile (\<lambda>x. \<not> frame x) (stack s))
          \<and> envs P' = envs P @ [cenv @ bind_params varList args]
          \<and> heap s' = heap s \<and> world P' = world P \<and> go
          \<and> length (filter frame (stack s')) = length (filter frame (stack s))
          \<and> length (stack s') \<le> length (stack s)"
proof -
  from step st ex obtain l1 where
    rec: "record_result (pc l > 2 \<and> pc l \<le> length argList + 2) s l = Inr l1"
    and call: "call_closure P s l1 rest b = Inr (P', s')" and go: "go"
    using pc
    by (auto simp add: step_def step_ExprCall_def record_result_frame
             split: sum.splits if_splits dest: record_result_frame)
  have fl: "frame l1 = frame l" using rec by (simp add: record_result_frame)
  from call tl obtain stk exprLoc args cenv fb varList body where
    loc: "local l1 = exprLoc # args"
    and clo: "heap_at (heap s) exprLoc = Some (Closure cenv (fb, varList, body))"
    and len: "length args = length varList"
    and pop: "popToFrame (l1\<lparr>pc := pc l1 + 1\<rparr> # rest) = Some stk"
    and s': "stack s' = newLayer (length (envs P)) (Some body) True # tl stk"
    and P': "envs P' = envs P @ [cenv @ bind_params varList args]"
    and h': "heap s' = heap s" and w': "world P' = world P"
    by (auto simp add: call_closure_def Let_def
             split: list.splits option.splits Value.splits if_splits prod.splits)
  from popToFrame_dropWhile [OF pop]
  have stk: "stk = dropWhile (\<lambda>x. \<not> frame x) (l1\<lparr>pc := pc l1 + 1\<rparr> # rest)"
    and ne: "stk \<noteq> []" and fr: "frame (hd stk)" by auto
  have same: "tl stk = tl (dropWhile (\<lambda>x. \<not> frame x) (l # rest))
        \<and> length (filter frame stk) = length (filter frame (l # rest))"
  proof (cases "frame l")
    case True
    then have "stk = l1\<lparr>pc := pc l1 + 1\<rparr> # rest" using stk fl by simp
    then show ?thesis using True fl by simp
  next
    case False
    then have "stk = dropWhile (\<lambda>x. \<not> frame x) rest" using stk fl by simp
    then show ?thesis using False by (simp add: frames_dropWhile)
  qed
  have one: "stack s' = newLayer (length (envs P)) (Some body) True
                          # tl (dropWhile (\<lambda>x. \<not> frame x) (stack s))"
    using s' same st by simp
  have three: "length (filter frame (stack s')) = length (filter frame (stack s))"
    using s' frames_tl [OF ne fr] same st by (simp add: newLayer_def)
  have "length stk \<le> length (stack s)"
    using stk st by (simp add: length_dropWhile_le le_SucI)
  then have four: "length (stack s') \<le> length (stack s)"
    using s' ne by (cases stk) auto
  show ?thesis using rec loc clo len one P' h' w' go three four by blast
qed

subsection \<open>The loop of the specification\<close>

lemma stoi_0: "stoi ''0'' = Inr 0" by code_simp
lemma stoi_1: "stoi ''1'' = Inr 1" by code_simp

lemma newState_tail_loop:
  assumes "stoi n = Inr N"
  shows "newState empty_process (tail_loop n) =
     Inr (\<lparr>envs = [[]], world = ()\<rparr>,
          \<lparr>root = loop_prepared n,
           stack = [newLayer 0 (Some (loop_prepared n)) False, newLayer 0 None True],
           heap = [Integer 0, Integer 0, Integer 1, Integer N],
           numLiterals = 4, resultLoc = None\<rparr>)"
  using assms
  by (auto simp add: newState_def tail_loop_def node_def empty_process_def stoi_0 stoi_1
        loop_prepared_def loop_start_def loop_lambda_def loop_body_def loop_next_def loop_test_def
        add_freeVars_def erase_freeVars_def setTailVar_def insert_Diff_if insert_commute)

lemma heap_at_append:
  "heap_at (h @ t) a = (case heap_at h a of Some v \<Rightarrow> Some v | None \<Rightarrow> heap_at t (a - int (length h)))"
  by (auto simp add: heap_at_def nth_append nat_diff_distrib)

lemma heap_at_new: "int (length h) \<le> a \<Longrightarrow> heap_at h a = None"
  by (simp add: heap_at_def)

lemma heap_at_Nil: "heap_at [] a = None"
  by (simp add: heap_at_def)

lemma heap_at_Cons:
  "heap_at (v # t) a = (if a = 0 then Some v else if a < 0 then None else heap_at t (a - 1))"
  by (auto simp add: heap_at_def nat_diff_distrib nth_Cons split: nat.splits)

lemmas step_simps =
  step_def step_Literal_def step_Variable_def step_Lambda_def step_Letrec_def step_If_def
  step_IntrinsicCall_def step_ExprCall_def call_closure_def pushChild_def newLayer_def
  record_result_def env_at_def lookup_def letrec_record_def bind_params_def
  callIntrinsic_def args_II_def typecheck_def getInteger_def returning_def of_cond_def
  savedEnv_def Let_def quiet_host_def

lemma prologue:
  assumes "stoi n = Inr N"
  shows "\<exists>c. run_within 7 10 (projr (newState empty_process (tail_loop n))) = Some c
            \<and> at_iteration n 3 N c"
  unfolding newState_tail_loop [OF assms]
  by (simp add: eval_nat_numeral step_simps at_iteration_def loop_prepared_def loop_start_def
        loop_lambda_def heap_at_def)

lemma iteration:
  assumes "at_iteration n a k c" and "k \<noteq> 0"
  shows "\<exists>c' a'. run_within 7 17 c = Some c' \<and> at_iteration n a' (k - 1) c'"
proof -
  obtain P s where c: "c = (P, s)" by (cases c)
  from assms(1) obtain E where E: "E < length (envs P)"
    "envs P ! E = [(''loop'', 4), (''n'', a)]" "envs P ! 0 = [(''loop'', 4)]"
    and st: "stack s =
               [newLayer E (Some loop_body) True,
                \<lparr>env = 0, expr = Some (loop_start n), frame = False, pc = 4, local = [4, 3]\<rparr>,
                \<lparr>env = 0, expr = Some (loop_prepared n), frame = False, pc = 3, local = []\<rparr>,
                newLayer 0 None True]"
    and h: "heap_at (heap s) 0 = Some (Integer 0)" "heap_at (heap s) 1 = Some (Integer 0)"
      "heap_at (heap s) 2 = Some (Integer 1)"
      "heap_at (heap s) 4 = Some (Closure [(''loop'', 4)] loop_lambda)"
      "heap_at (heap s) a = Some (Integer k)"
    unfolding c at_iteration_def by auto
  have pos: "0 < length (envs P)" using E(1) by (cases "envs P") auto
  show ?thesis
    unfolding c using E st h assms(2) pos
    by (simp add: eval_nat_numeral step_simps at_iteration_def loop_body_def loop_test_def
          loop_next_def loop_lambda_def heap_at_append heap_at_new heap_at_Nil heap_at_Cons nth_append)
qed

lemma exit_loop:
  assumes "at_iteration n a 0 c"
  shows "\<exists>c'. run_within 7 11 c = Some c' \<and> stack (snd c') = [newLayer 0 None True]
            \<and> getResult (snd c') = Inr (Integer 0)"
proof -
  obtain P s where c: "c = (P, s)" by (cases c)
  from assms(1) obtain E where E: "E < length (envs P)"
    "envs P ! E = [(''loop'', 4), (''n'', a)]" "envs P ! 0 = [(''loop'', 4)]"
    and st: "stack s =
               [newLayer E (Some loop_body) True,
                \<lparr>env = 0, expr = Some (loop_start n), frame = False, pc = 4, local = [4, 3]\<rparr>,
                \<lparr>env = 0, expr = Some (loop_prepared n), frame = False, pc = 3, local = []\<rparr>,
                newLayer 0 None True]"
    and h: "heap_at (heap s) 0 = Some (Integer 0)" "heap_at (heap s) 1 = Some (Integer 0)"
      "heap_at (heap s) 2 = Some (Integer 1)"
      "heap_at (heap s) 4 = Some (Closure [(''loop'', 4)] loop_lambda)"
      "heap_at (heap s) a = Some (Integer 0)"
    unfolding c at_iteration_def by auto
  have pos: "0 < length (envs P)" using E(1) by (cases "envs P") auto
  show ?thesis
    unfolding c using E st h pos
    by (simp add: eval_nat_numeral step_simps loop_body_def loop_test_def loop_start_def
          loop_prepared_def loop_next_def loop_lambda_def heap_at_append heap_at_new heap_at_Nil
          heap_at_Cons nth_append getResult_def)
qed

lemma steps_add:
  "steps (m + r) c = (case steps m c of Inl err \<Rightarrow> Inl err | Inr c' \<Rightarrow> steps r c')"
  by (induction m arbitrary: c) (auto split: sum.splits)

lemma run_within_steps:
  "run_within d m c = Some c' \<Longrightarrow> steps m c = Inr c'"
  by (induction m arbitrary: c) (auto split: if_splits sum.splits)

lemma run_within_bound:
  "run_within d m c = Some c' \<Longrightarrow> r \<le> m \<Longrightarrow>
   \<exists>c''. steps r c = Inr c'' \<and> length (stack (snd c'')) \<le> d"
proof (induction m arbitrary: c r)
  case 0
  then show ?case by (auto split: if_splits)
next
  case (Suc m)
  show ?case
  proof (cases r)
    case 0
    then show ?thesis using Suc.prems(1) by (auto split: if_splits)
  next
    case (Suc r')
    from Suc.prems(1) obtain go c1 where st: "step quiet_host c = Inr (go, c1)"
      and run: "run_within d m c1 = Some c'"
      by (auto split: if_splits sum.splits)
    have "r' \<le> m" using Suc Suc.prems(2) by simp
    from Suc.IH [OF run this] show ?thesis using st Suc by simp
  qed
qed

lemma idle:
  "stack (snd c) = [newLayer 0 None True] \<Longrightarrow> steps r c = Inr c"
  by (induction r) (auto simp add: step_def newLayer_def split: prod.splits)

lemma bounded_from_iteration:
  "at_iteration n a k c \<Longrightarrow> \<exists>c'. steps j c = Inr c' \<and> length (stack (snd c')) \<le> 7"
proof (induction j arbitrary: a k c rule: less_induct)
  case (less j)
  show ?case
  proof (cases "k = 0")
    case True
    with less.prems obtain cf where run: "run_within 7 11 c = Some cf"
      and fin: "stack (snd cf) = [newLayer 0 None True]" using exit_loop by blast
    show ?thesis
    proof (cases "j \<le> 11")
      case True
      then show ?thesis using run_within_bound [OF run] by simp
    next
      case False
      then have "steps j c = steps (11 + (j - 11)) c" by simp
      also have "\<dots> = steps (j - 11) cf"
        unfolding steps_add using run_within_steps [OF run] by simp
      also have "\<dots> = Inr cf" using fin by (rule idle)
      finally show ?thesis using fin by simp
    qed
  next
    case False
    with less.prems obtain c1 a1 where run: "run_within 7 17 c = Some c1"
      and nxt: "at_iteration n a1 (k - 1) c1" using iteration by blast
    show ?thesis
    proof (cases "j \<le> 17")
      case True
      then show ?thesis using run_within_bound [OF run] by simp
    next
      case False
      then have "steps j c = steps (17 + (j - 17)) c" by simp
      also have "\<dots> = steps (j - 17) c1"
        unfolding steps_add using run_within_steps [OF run] by simp
      finally have eq: "steps j c = steps (j - 17) c1" .
      have "j - 17 < j" using False by simp
      from less.IH [OF this nxt] show ?thesis using eq by simp
    qed
  qed
qed

lemma completes_from_iteration:
  "at_iteration n a k c \<Longrightarrow> unat k = m \<Longrightarrow>
   \<exists>c'. steps (17 * m + 11) c = Inr c' \<and> stack (snd c') = [newLayer 0 None True]
        \<and> getResult (snd c') = Inr (Integer 0)"
proof (induction m arbitrary: a k c)
  case 0
  then have "k = 0" by (simp add: unat_eq_0)
  with 0 obtain cf where "run_within 7 11 c = Some cf" "stack (snd cf) = [newLayer 0 None True]"
    "getResult (snd cf) = Inr (Integer 0)" using exit_loop by blast
  then show ?case using run_within_steps by auto
next
  case (Suc m)
  then have k: "k \<noteq> 0" by auto
  with Suc.prems obtain c1 a1 where run: "run_within 7 17 c = Some c1"
    and nxt: "at_iteration n a1 (k - 1) c1" using iteration by blast
  have "unat (k - 1) = m" using Suc.prems(2) k by (simp add: unat_minus_one)
  from Suc.IH [OF nxt this] obtain cf where cf: "steps (17 * m + 11) c1 = Inr cf"
    "stack (snd cf) = [newLayer 0 None True]" "getResult (snd cf) = Inr (Integer 0)" by blast
  have "steps (17 * Suc m + 11) c = steps (17 + (17 * m + 11)) c" by simp
  also have "\<dots> = steps (17 * m + 11) c1"
    unfolding steps_add using run_within_steps [OF run] by simp
  finally show ?case using cf by simp
qed

lemma tail_loop_completes:
  assumes "stoi n = Inr N"
  shows "\<exists>c. run_steps (17 * unat N + 21) (tail_loop n) = Inr c
            \<and> stack (snd c) = [newLayer 0 None True] \<and> getResult (snd c) = Inr (Integer 0)"
proof -
  let ?c0 = "projr (newState empty_process (tail_loop n))"
  from prologue [OF assms] obtain c10 where run: "run_within 7 10 ?c0 = Some c10"
    and it: "at_iteration n 3 N c10" by blast
  have "17 * unat N + 21 = 10 + (17 * unat N + 11)" by simp
  then have "steps (17 * unat N + 21) ?c0 = steps (10 + (17 * unat N + 11)) ?c0" by (simp only:)
  also have "\<dots> = steps (17 * unat N + 11) c10"
    unfolding steps_add using run_within_steps [OF run] by simp
  finally have "steps (17 * unat N + 21) ?c0 = steps (17 * unat N + 11) c10" .
  moreover have "run_steps (17 * unat N + 21) (tail_loop n) = steps (17 * unat N + 21) ?c0"
    by (simp add: run_steps_def newState_tail_loop [OF assms])
  ultimately show ?thesis using completes_from_iteration [OF it refl] by (simp only:)
qed

lemma tail_loop_bounded:
  assumes "stoi n = Inr N"
  shows "\<exists>c. run_steps j (tail_loop n) = Inr c \<and> length (stack (snd c)) \<le> 7"
proof -
  let ?c0 = "projr (newState empty_process (tail_loop n))"
  have ns: "newState empty_process (tail_loop n) = Inr ?c0"
    using newState_tail_loop [OF assms] by simp
  from prologue [OF assms] obtain c10 where run: "run_within 7 10 ?c0 = Some c10"
    and it: "at_iteration n 3 N c10" by blast
  have "\<exists>c. steps j ?c0 = Inr c \<and> length (stack (snd c)) \<le> 7"
  proof (cases "j \<le> 10")
    case True
    then show ?thesis using run_within_bound [OF run] by simp
  next
    case False
    then have "steps j ?c0 = steps (10 + (j - 10)) ?c0" by simp
    also have "\<dots> = steps (j - 10) c10"
      unfolding steps_add using run_within_steps [OF run] by simp
    finally show ?thesis using bounded_from_iteration [OF it, of "j - 10"] by simp
  qed
  moreover have "run_steps j (tail_loop n) = steps j ?c0"
    by (simp add: run_steps_def newState_tail_loop [OF assms])
  ultimately show ?thesis by (simp only:)
qed

lemma sint_nonneg_unat:
  assumes "0 \<le> sint (N :: cint)"
  shows "unat N = nat (sint N)"
proof -
  have "uint N = sint N mod 2 ^ 32" by (simp add: uint_sint take_bit_eq_mod)
  also have "\<dots> = sint N" using assms sint_cint_bounds [of N] by simp
  finally show ?thesis by (simp add: unat_eq_nat_uint)
qed

text \<open>
  Claim C4. First, the call step of an \<^verbatim>\<open>ExprCallNode\<close> marked tail: a successful step
  reads the closure at the first recorded location, checks the number of arguments,
  pops the layers down to and including the nearest frame, and pushes a frame for the
  closure's body in a new environment made of the closure's bindings followed by
  the parameters bound to the argument locations; the heap is unchanged, the number
  of frames is the same as before and the stack is not longer than before. Second,
  the loop \<^verbatim>\<open>letrec (loop lambda (n) (if (.= n 0) 0 (loop (.- n 1)))) (loop N)\<close>, for
  every literal \<open>N\<close>: however many steps are run, no step fails and the stack never
  holds more than 7 layers; and for \<open>N \<ge> 0\<close> the run ends after \<open>17 * N + 21\<close> steps
  with the value 0, only the main frame left.
\<close>

theorem tail_call_step:
  "(stack s = l # rest \<and> expr l = Some (ExprCallNode b callee argList) \<and> tail b
      \<and> pc l = length argList + 2 \<and> step host (P, s) = Inr (go, P', s')
    \<longrightarrow> (\<exists>l1 exprLoc args cenv fb varList body.
            record_result (pc l > 2 \<and> pc l \<le> length argList + 2) s l = Inr l1
          \<and> local l1 = exprLoc # args
          \<and> heap_at (heap s) exprLoc = Some (Closure cenv (fb, varList, body))
          \<and> length args = length varList
          \<and> stack s' = newLayer (length (envs P)) (Some body) True
                          # tl (dropWhile (\<lambda>x. \<not> frame x) (stack s))
          \<and> envs P' = envs P @ [cenv @ bind_params varList args]
          \<and> heap s' = heap s \<and> world P' = world P \<and> go
          \<and> length (filter frame (stack s')) = length (filter frame (stack s))
          \<and> length (stack s') \<le> length (stack s)))
   \<and> (stoi n = Inr N
    \<longrightarrow> (\<forall>j. \<exists>c. run_steps j (tail_loop n) = Inr c \<and> length (stack (snd c)) \<le> 7)
      \<and> (0 \<le> sint N \<longrightarrow>
           (\<exists>c. run_steps (17 * nat (sint N) + 21) (tail_loop n) = Inr c
              \<and> stack (snd c) = [newLayer 0 None True]
              \<and> getResult (snd c) = Inr (Integer 0))))"
proof (intro conjI impI)
  assume "stack s = l # rest \<and> expr l = Some (ExprCallNode b callee argList) \<and> tail b
      \<and> pc l = length argList + 2 \<and> step host (P, s) = Inr (go, P', s')"
  then show "\<exists>l1 exprLoc args cenv fb varList body.
            record_result (pc l > 2 \<and> pc l \<le> length argList + 2) s l = Inr l1
          \<and> local l1 = exprLoc # args
          \<and> heap_at (heap s) exprLoc = Some (Closure cenv (fb, varList, body))
          \<and> length args = length varList
          \<and> stack s' = newLayer (length (envs P)) (Some body) True
                          # tl (dropWhile (\<lambda>x. \<not> frame x) (stack s))
          \<and> envs P' = envs P @ [cenv @ bind_params varList args]
          \<and> heap s' = heap s \<and> world P' = world P \<and> go
          \<and> length (filter frame (stack s')) = length (filter frame (stack s))
          \<and> length (stack s') \<le> length (stack s)"
    using tail_call_frame [of s l rest b callee argList host P go P' s'] by blast
next
  assume "stoi n = Inr N"
  then show "\<forall>j. \<exists>c. run_steps j (tail_loop n) = Inr c \<and> length (stack (snd c)) \<le> 7"
    using tail_loop_bounded by blast
next
  assume "stoi n = Inr N" and "0 \<le> sint N"
  then show "\<exists>c. run_steps (17 * nat (sint N) + 21) (tail_loop n) = Inr c
              \<and> stack (snd c) = [newLayer 0 None True]
              \<and> getResult (snd c) = Inr (Integer 0)"
    using tail_loop_completes [of n N] sint_nonneg_unat [of N] by simp
qed

section \<open>Values in the heap\<close>

subsection \<open>Checked nodes\<close>




















subsection \<open>Layers and their environments\<close>






























subsection \<open>The collector\<close>














subsection \<open>The step that writes\<close>












section \<open>Runs of concrete programs\<close>

lemma before_tail_call_facts:
  "stack (snd before_tail_call) \<noteq> []
   \<and> (case expr (hd (stack (snd before_tail_call))) of
        Some (ExprCallNode b callee argList) \<Rightarrow>
          tail b \<and> pc (hd (stack (snd before_tail_call))) = length argList + 2
      | _ \<Rightarrow> False)
   \<and> step quiet_host before_tail_call = Inr after_tail_call
   \<and> length (stack (snd before_tail_call)) = 5
   \<and> length (stack (snd (snd after_tail_call))) = 4
   \<and> length (filter frame (stack (snd before_tail_call))) = 2
   \<and> length (filter frame (stack (snd (snd after_tail_call)))) = 2"
  unfolding after_tail_call_def before_tail_call_def by code_simp

lemma stoi_million: "stoi ''1000000'' = Inr 1000000"
  by code_simp

text \<open>
  The tail call of the loop for \<open>N = 2\<close>, from 5 layers to 4 with 2 frames before
  and after, and the loop for \<open>N = 1000000\<close>: within 7 layers after 12345678 steps,
  and finished with the value 0 after 17000021 steps.
\<close>

theorem tail_call_step_witness:
  "length (stack (snd before_tail_call)) = 5
   \<and> length (stack (snd (snd after_tail_call))) = 4
   \<and> length (filter frame (stack (snd (snd after_tail_call))))
       = length (filter frame (stack (snd before_tail_call)))
   \<and> length (stack (snd (snd after_tail_call))) \<le> length (stack (snd before_tail_call))
   \<and> stoi ''1000000'' = Inr 1000000
   \<and> (\<exists>c. run_steps 12345678 (tail_loop ''1000000'') = Inr c \<and> length (stack (snd c)) \<le> 7)
   \<and> (\<exists>c. run_steps 17000021 (tail_loop ''1000000'') = Inr c
          \<and> stack (snd c) = [newLayer 0 None True] \<and> getResult (snd c) = Inr (Integer 0))"
proof -
  let ?P = "fst before_tail_call" and ?s = "snd before_tail_call"
  let ?l = "hd (stack ?s)" and ?rest = "tl (stack ?s)"
  note f = before_tail_call_facts
  have st: "stack ?s = ?l # ?rest" using f by simp
  from f obtain b callee argList where
    ex: "expr ?l = Some (ExprCallNode b callee argList)" and tl: "tail b"
    and pc: "pc ?l = length argList + 2"
    by (auto split: option.splits ExprNode.splits)
  have step: "step quiet_host (?P, ?s)
      = Inr (fst after_tail_call, fst (snd after_tail_call), snd (snd after_tail_call))"
    using f by simp
  have s: "sint (1000000 :: cint) = 1000000" by simp
  note t = tail_call_step [of ?s ?l ?rest b callee argList quiet_host ?P
      "fst after_tail_call" "fst (snd after_tail_call)" "snd (snd after_tail_call)"
      "''1000000''" 1000000]
  have one: "length (filter frame (stack (snd (snd after_tail_call))))
       = length (filter frame (stack (snd before_tail_call)))
     \<and> length (stack (snd (snd after_tail_call))) \<le> length (stack (snd before_tail_call))"
    using t st ex tl pc step by blast
  have two: "\<exists>c. run_steps 12345678 (tail_loop ''1000000'') = Inr c \<and> length (stack (snd c)) \<le> 7"
    using t stoi_million by blast
  have "\<exists>c. run_steps (17 * nat (sint (1000000 :: cint)) + 21) (tail_loop ''1000000'') = Inr c
          \<and> stack (snd c) = [newLayer 0 None True] \<and> getResult (snd c) = Inr (Integer 0)"
    using t stoi_million s by simp
  then have three: "\<exists>c. run_steps 17000021 (tail_loop ''1000000'') = Inr c
          \<and> stack (snd c) = [newLayer 0 None True] \<and> getResult (snd c) = Inr (Integer 0)"
    by (simp add: s)
  show ?thesis using f one two three stoi_million by simp
qed

subsection \<open>Copying a state\<close>

text \<open>
  Claim C1 does not hold of the code. \<^verbatim>\<open>letrec (x 1) x\<close> is run for four steps and
  the state is copied; its top layer is the body \<open>x\<close>. The copy sees the environment
  \<open>[(x, 1)]\<close> and its next step finds \<open>x\<close>. After two more steps of the original
  (which pop the binding) the same copy, untouched, sees the empty environment and
  its next step panics with "undefined variable x".
\<close>

theorem copied_state_shares_environment:
  "(case run_steps 4 letrec_x of
      Inl err \<Rightarrow> None
    | Inr (P4, s4) \<Rightarrow>
        (case steps 2 (P4, s4) of
           Inl err \<Rightarrow> None
         | Inr (P6, s6) \<Rightarrow>
             Some (env_at P4 (env (hd (stack (copyState s4)))),
                   env_at P6 (env (hd (stack (copyState s4)))),
                   map_sum id (resultLoc \<circ> snd \<circ> snd) (step quiet_host (P4, copyState s4)),
                   map_sum id (resultLoc \<circ> snd \<circ> snd) (step quiet_host (P6, copyState s4)))))
   = Some (Some [(''x'', 1)], Some [],
           Inr (Some 1), Inl (Panic ''runtime'' ''undefined variable x'' (SourceLocation 1 14)))"
  by code_simp

subsection \<open>The collector and the result location\<close>

text \<open>
  Claim C2 does not hold of the code. On a letrec of 65 bindings the heap passes the
  threshold \<open>numLiterals + 64\<close> in the first step, before any step has assigned
  \<^verbatim>\<open>resultLoc\<close>; \<^verbatim>\<open>_mark\<close> then reads the member, which is undefined. The run that
  never collects ends with the value Void.
\<close>

theorem collector_reads_unassigned_resultLoc:
  "map_option (map_sum id (getResult \<circ> snd))
     (execute quiet_host True 200 (projr (newState empty_process many_bindings)))
   = Some (Inl (Undefined ''resultLoc read before any assignment''))
   \<and> map_option (map_sum id (getResult \<circ> snd))
     (execute quiet_host False 200 (projr (newState empty_process many_bindings)))
   = Some (Inr (Inr Void))"
  by code_simp

subsection \<open>The step that writes, and a collection\<close>




end
